theory Spec2Isabelle
  imports Main "HOL-Library.Sublist" "HOL-Library.Word"
begin

section \<open>Text formatting and the GLib string functions the plugin calls\<close>

text \<open>
  The plugin \<^verbatim>\<open>contrib/plugins/armcov.c\<close> builds its trace records with \<^verbatim>\<open>printf\<close>
  conversions and GLib string functions. A C string is a \<open>string\<close> here (a list of
  bytes without the terminating NUL); a \<^verbatim>\<open>GString\<close> is the string it holds, its
  \<^verbatim>\<open>len\<close> the length of that string. The GLib functions are written as GLib's
  reference manual describes them; disassembly and register names are ASCII, so that
  a character of GLib's pattern matching is one byte.
\<close>

type_synonym byte = "8 word"

definition hex_digit :: "nat \<Rightarrow> char" where
  "hex_digit n = ''0123456789abcdef'' ! n"

text \<open>The conversion \<^verbatim>\<open>%x\<close>: lower-case hexadecimal, no leading zeros.\<close>

function hex_nat :: "nat \<Rightarrow> string" where
  "hex_nat n = (if n < 16 then [hex_digit n] else hex_nat (n div 16) @ [hex_digit (n mod 16)])"
  by pat_completeness auto
termination
  by (relation "measure id") auto

declare hex_nat.simps [simp del]

text \<open>The conversions \<^verbatim>\<open>%u\<close> and \<^verbatim>\<open>%d\<close> of a non-negative number.\<close>

function dec_nat :: "nat \<Rightarrow> string" where
  "dec_nat n = (if n < 10 then [hex_digit n] else dec_nat (n div 10) @ [hex_digit (n mod 10)])"
  by pat_completeness auto
termination
  by (relation "measure id") auto

declare dec_nat.simps [simp del]

text \<open>The conversion \<^verbatim>\<open>%02x\<close> of one byte: always two digits.\<close>

definition hex2 :: "byte \<Rightarrow> string" where
  "hex2 b = [hex_digit (unat b div 16), hex_digit (unat b mod 16)]"

text \<open>
  \<^verbatim>\<open>g_strstr_len (haystack, -1, needle)\<close> as the plugin uses it: only whether the result
  is non-NULL, that is, whether \<open>needle\<close> occurs in \<open>haystack\<close>.
\<close>

fun g_strstr_len :: "string \<Rightarrow> string \<Rightarrow> bool" where
  "g_strstr_len [] needle = (needle = [])"
| "g_strstr_len (c # cs) needle = (prefix needle (c # cs) \<or> g_strstr_len cs needle)"

text \<open>
  \<^verbatim>\<open>g_strrstr (haystack, needle)\<close>: the rest of \<open>haystack\<close> from the last occurrence of
  \<open>needle\<close> on, \<open>None\<close> for NULL when there is none.
\<close>

fun g_strrstr :: "string \<Rightarrow> string \<Rightarrow> string option" where
  "g_strrstr [] needle = (if needle = [] then Some [] else None)"
| "g_strrstr (c # cs) needle =
     (case g_strrstr cs needle of
        Some r \<Rightarrow> Some r
      | None \<Rightarrow> if prefix needle (c # cs) then Some (c # cs) else None)"

text \<open>
  \<^verbatim>\<open>g_pattern_spec_match_string (g_pattern_spec_new (pattern), string)\<close>: GLib's glob
  matching, in which \<^verbatim>\<open>*\<close> stands for any string, the empty one included, \<^verbatim>\<open>?\<close> for any
  one character, and every other character for itself.
\<close>

fun g_pattern_spec_match_string :: "string \<Rightarrow> string \<Rightarrow> bool" where
  "g_pattern_spec_match_string [] s = (s = [])"
| "g_pattern_spec_match_string (p # ps) s =
     (if p = CHR ''*'' then
        g_pattern_spec_match_string ps s \<or>
        (case s of [] \<Rightarrow> False | _ # t \<Rightarrow> g_pattern_spec_match_string (p # ps) t)
      else
        (case s of
           [] \<Rightarrow> False
         | c # t \<Rightarrow> (p = CHR ''?'' \<or> p = c) \<and> g_pattern_spec_match_string ps t))"

text \<open>\<^verbatim>\<open>g_str_has_prefix (str, prefix)\<close>.\<close>

definition g_str_has_prefix :: "string \<Rightarrow> string \<Rightarrow> bool" where
  "g_str_has_prefix str p = prefix p str"

text \<open>
  \<^verbatim>\<open>g_strsplit (opt, "=", 2)\<close>: at most two pieces, cut at the first \<^verbatim>\<open>=\<close>; the empty
  string gives the empty vector.
\<close>

fun split_at_eq :: "string \<Rightarrow> string \<times> string option" where
  "split_at_eq [] = ([], None)"
| "split_at_eq (c # cs) =
     (if c = CHR ''='' then ([], Some cs)
      else (case split_at_eq cs of (k, v) \<Rightarrow> (c # k, v)))"

definition g_strsplit_eq_2 :: "string \<Rightarrow> string list" where
  "g_strsplit_eq_2 opt =
     (if opt = [] then []
      else (case split_at_eq opt of (k, None) \<Rightarrow> [k] | (k, Some v) \<Rightarrow> [k, v]))"

text \<open>The entry \<open>i\<close> of a NULL-terminated string vector: \<open>None\<close> is the NULL at its end.\<close>

definition strv_nth :: "string list \<Rightarrow> nat \<Rightarrow> string option" where
  "strv_nth tokens i = (if i < length tokens then Some (tokens ! i) else None)"

section \<open>The execution engine\<close>

text \<open>
  The plugin API gives each register of a core as a descriptor. What
  \<^verbatim>\<open>qemu_plugin_get_registers\<close> lists for a core and what \<^verbatim>\<open>qemu_plugin_read_register\<close>
  appends to the byte buffer belong to the emulator; an \<open>engine\<close> is their value at the
  moment of one callback. A read gives the register's bytes in the target's order
  (\<open>Some\<close> of them, their number being the call's result), or fails with -1 (\<open>None\<close>).
\<close>

record qemu_plugin_reg_descriptor =
  handle :: nat
  name :: string

record engine =
  qemu_plugin_get_registers :: "nat \<Rightarrow> qemu_plugin_reg_descriptor list"
  qemu_plugin_read_register :: "nat \<Rightarrow> nat \<Rightarrow> byte list option"

section \<open>The plugin's state\<close>

text \<open>
  The structure \<^verbatim>\<open>CPU\<close>. Core indices are natural numbers: the source holds them in
  \<^verbatim>\<open>unsigned int\<close> and \<^verbatim>\<open>int\<close>, which agree below \<open>2\<^sup>3\<^sup>1\<close>.
\<close>

record CPU =
  insn_rec :: string
  index :: nat

datatype callback = Vcpu_init_cb | Vcpu_tb_trans_cb | Atexit_cb

text \<open>
  The globals \<^verbatim>\<open>cpus\<close> (with \<^verbatim>\<open>num_cpus\<close> its length) and \<^verbatim>\<open>fmt_bin\<close>, and what
  the plugin has done to the world: the strings passed to \<^verbatim>\<open>qemu_plugin_outs\<close>, the
  lines printed to \<^verbatim>\<open>stderr\<close>, and the callbacks registered with the emulator.
\<close>

record plugin_state =
  cpus :: "CPU list"
  fmt_bin :: bool
  outs :: "string list"
  errs :: "string list"
  registered :: "callback list"

text \<open>
  The ways a call can end other than by returning: the \<^verbatim>\<open>g_assert\<close> of \<^verbatim>\<open>get_cpu\<close>
  fails, or a NULL pointer is used.
\<close>

datatype fault = Assertion_failed | Null_dereference

definition get_cpu :: "nat \<Rightarrow> plugin_state \<Rightarrow> fault + CPU" where
  "get_cpu i s = (if i < length (cpus s) then Inr (cpus s ! i) else Inl Assertion_failed)"

section \<open>Register lookup and rendering\<close>

fun get_reg_desc ::
  "qemu_plugin_reg_descriptor list \<Rightarrow> string \<Rightarrow> qemu_plugin_reg_descriptor option" where
  "get_reg_desc [] reg_pat = None"
| "get_reg_desc (d # ds) reg_pat =
     (if g_pattern_spec_match_string reg_pat (name d) then Some d
      else get_reg_desc ds reg_pat)"

text \<open>The loop \<^verbatim>\<open>for (i = regsize-1; i >= 0; i--)\<close> of \<^verbatim>\<open>read_register\<close>, \<open>n\<close> bytes to go.\<close>

fun append_reg_bytes :: "byte list \<Rightarrow> nat \<Rightarrow> string \<Rightarrow> string" where
  "append_reg_bytes reg_buf 0 rec = rec"
| "append_reg_bytes reg_buf (Suc i) rec = append_reg_bytes reg_buf i (rec @ hex2 (reg_buf ! i))"

definition read_register ::
  "engine \<Rightarrow> nat \<Rightarrow> qemu_plugin_reg_descriptor \<Rightarrow> string \<Rightarrow> string" where
  "read_register e cpu_index desc rec =
     (let rec1 = rec @ '', '' @ name desc @ '' -> 0x'';
          reg_buf = (case qemu_plugin_read_register e cpu_index (handle desc) of
                       None \<Rightarrow> [] | Some bs \<Rightarrow> bs);
          rec2 = append_reg_bytes reg_buf (length reg_buf) rec1
      in rec2 @ ''\<newline>'')"

section \<open>The instruction callback\<close>

text \<open>
  The first block of \<^verbatim>\<open>vcpu_insn_exec_cb\<close>: when the record left in \<^verbatim>\<open>insn_rec\<close>
  contains \<^verbatim>\<open>msr\<close>, complete it with the value of TTBR0_EL1 and print it. \<open>Inr\<close> is
  the list of strings passed to \<^verbatim>\<open>qemu_plugin_outs\<close> (one or none); \<open>Inl\<close> is the
  \<^verbatim>\<open>return\<close> taken when the register is not found, with the line printed to
  \<^verbatim>\<open>stderr\<close>. The registers are listed for \<^verbatim>\<open>cpu->index\<close> and read for
  \<^verbatim>\<open>cpu_index\<close>, as in the source.
\<close>

definition resolve_pending :: "engine \<Rightarrow> nat \<Rightarrow> CPU \<Rightarrow> string list + string list" where
  "resolve_pending e cpu_index cpu =
     (if insn_rec cpu \<noteq> [] \<and> g_strstr_len (insn_rec cpu) ''msr'' then
        (case get_reg_desc (qemu_plugin_get_registers e (index cpu)) ''TTBR0_EL1'' of
           None \<Rightarrow>
             Inl [''Failed to find register TTBR0_EL1 on cpu '' @ dec_nat (index cpu)
                    @ ''.\<newline>'']
         | Some desc \<Rightarrow> Inr [read_register e cpu_index desc (insn_rec cpu)])
      else Inr [])"

text \<open>
  What \<^verbatim>\<open>g_string_printf (cpu->insn_rec, "%u, ", cpu_index)\<close> followed by
  \<^verbatim>\<open>g_string_append (cpu->insn_rec, udata)\<close> leaves in the record.
\<close>

definition seed_record :: "nat \<Rightarrow> string \<Rightarrow> string" where
  "seed_record cpu_index udata = dec_nat cpu_index @ '', '' @ udata"

text \<open>
  \<^verbatim>\<open>vcpu_insn_exec_cb\<close> on the \<^verbatim>\<open>CPU\<close> structure that \<^verbatim>\<open>get_cpu\<close> returned. The result
  is the structure as the callback leaves it, the strings it passed to
  \<^verbatim>\<open>qemu_plugin_outs\<close> and the lines it printed to \<^verbatim>\<open>stderr\<close>, in order. Each
  \<^verbatim>\<open>return\<close> of the source is a branch. \<^verbatim>\<open>g_strrstr\<close> returning NULL would make
  \<^verbatim>\<open>g_pattern_spec_new\<close> read from address 1.
\<close>

definition vcpu_insn_exec_cb_cpu ::
  "engine \<Rightarrow> nat \<Rightarrow> string \<Rightarrow> CPU \<Rightarrow> fault + (CPU \<times> string list \<times> string list)" where
  "vcpu_insn_exec_cb_cpu e cpu_index udata cpu =
     (case resolve_pending e cpu_index cpu of
        Inl diag \<Rightarrow> Inr (cpu, [], diag)
      | Inr out1 \<Rightarrow>
          (let rec = seed_record cpu_index udata in
           if rec \<noteq> [] \<and> g_strstr_len rec ''blr'' then
             (case g_strrstr rec '' '' of
                None \<Rightarrow> Inl Null_dereference
              | Some sp \<Rightarrow>
                  (let blr_reg = tl sp in
                   case get_reg_desc (qemu_plugin_get_registers e (index cpu)) blr_reg of
                     None \<Rightarrow>
                       Inr (cpu\<lparr>insn_rec := rec\<rparr>, out1,
                            [''Failed to find register '' @ blr_reg @ '' on cpu ''
                               @ dec_nat (index cpu) @ ''.\<newline>''])
                   | Some desc \<Rightarrow>
                       (let rec' = read_register e cpu_index desc rec
                        in Inr (cpu\<lparr>insn_rec := rec'\<rparr>, out1 @ [rec'], []))))
           else if rec \<noteq> [] \<and> g_strstr_len rec ''bl'' then
             Inr (cpu\<lparr>insn_rec := rec @ ''\<newline>''\<rparr>, out1 @ [rec @ ''\<newline>''], [])
           else Inr (cpu\<lparr>insn_rec := rec\<rparr>, out1, [])))"

definition vcpu_insn_exec_cb ::
  "engine \<Rightarrow> nat \<Rightarrow> string \<Rightarrow> plugin_state \<Rightarrow> fault + plugin_state" where
  "vcpu_insn_exec_cb e cpu_index udata s =
     (case get_cpu cpu_index s of
        Inl f \<Rightarrow> Inl f
      | Inr cpu \<Rightarrow>
          (case vcpu_insn_exec_cb_cpu e cpu_index udata cpu of
             Inl f \<Rightarrow> Inl f
           | Inr (cpu', out, diag) \<Rightarrow>
               Inr (s\<lparr>cpus := (cpus s)[cpu_index := cpu'],
                       outs := outs s @ out, errs := errs s @ diag\<rparr>)))"

section \<open>The translation-time scanner\<close>

record qemu_plugin_insn =
  insn_vaddr :: "64 word"
  insn_data :: "32 word"
  insn_disas :: string

datatype qemu_plugin_cb_flags =
  QEMU_PLUGIN_CB_NO_REGS | QEMU_PLUGIN_CB_R_REGS | QEMU_PLUGIN_CB_RW_REGS

text \<open>
  \<^verbatim>\<open>g_strdup_printf ("0x%"PRIx64", 0x%"PRIx32", %s", vaddr, insn_asm, disas)\<close>, where
  \<open>insn_data\<close> is the 32-bit word that the source loads from the instruction's bytes.
\<close>

definition insn_output :: "qemu_plugin_insn \<Rightarrow> string" where
  "insn_output insn =
     ''0x'' @ hex_nat (unat (insn_vaddr insn)) @ '', 0x'' @ hex_nat (unat (insn_data insn))
       @ '', '' @ insn_disas insn"

text \<open>
  The loop of \<^verbatim>\<open>vcpu_tb_trans\<close> from instruction \<open>i\<close> on. A registration made by
  \<^verbatim>\<open>qemu_plugin_register_vcpu_insn_exec_cb\<close> is the instruction's place in the block,
  the flags and the user data; the callback is always \<^verbatim>\<open>vcpu_insn_exec_cb\<close>.
\<close>

fun vcpu_tb_trans_from ::
  "nat \<Rightarrow> qemu_plugin_insn list \<Rightarrow> (nat \<times> qemu_plugin_cb_flags \<times> string) list" where
  "vcpu_tb_trans_from i [] = []"
| "vcpu_tb_trans_from i (insn # rest) =
     (let disas = insn_disas insn;
          skip0 = True;
          skip1 = (if g_str_has_prefix disas ''bl'' then False else skip0);
          skip2 = (if g_str_has_prefix disas ''msr ttbr0'' then False else skip1)
      in (if skip2 then [] else [(i, QEMU_PLUGIN_CB_R_REGS, insn_output insn)])
           @ vcpu_tb_trans_from (Suc i) rest)"

definition vcpu_tb_trans ::
  "qemu_plugin_insn list \<Rightarrow> (nat \<times> qemu_plugin_cb_flags \<times> string) list" where
  "vcpu_tb_trans tb = vcpu_tb_trans_from 0 tb"

section \<open>Core-online and shutdown handlers\<close>

text \<open>The \<^verbatim>\<open>while (vcpu_index >= num_cpus)\<close> loop of \<^verbatim>\<open>vcpu_init\<close>.\<close>

function vcpu_init_loop :: "nat \<Rightarrow> CPU list \<Rightarrow> CPU list" where
  "vcpu_init_loop vcpu_index cs =
     (if vcpu_index \<ge> length cs
      then vcpu_init_loop vcpu_index (cs @ [\<lparr>insn_rec = [], index = vcpu_index\<rparr>])
      else cs)"
  by pat_completeness auto
termination
  by (relation "measure (\<lambda>(v, cs). Suc v - length cs)") auto

declare vcpu_init_loop.simps [simp del]

definition vcpu_init :: "nat \<Rightarrow> plugin_state \<Rightarrow> plugin_state" where
  "vcpu_init vcpu_index s =
     (if vcpu_index \<ge> length (cpus s)
      then s\<lparr>cpus := vcpu_init_loop vcpu_index (cpus s)\<rparr>
      else s)"

text \<open>
  The \<^verbatim>\<open>str\<close> field of a \<^verbatim>\<open>GString\<close> made by \<^verbatim>\<open>g_string_new (NULL)\<close> points to an
  allocated buffer holding the empty string; GLib never makes it NULL. The test
  \<^verbatim>\<open>if (cpus[i].insn_rec->str)\<close> of \<^verbatim>\<open>plugin_exit\<close> is this predicate.
\<close>

definition g_string_str_not_null :: "string \<Rightarrow> bool" where
  "g_string_str_not_null rec = True"

fun plugin_exit_from :: "CPU list \<Rightarrow> CPU list \<times> string list" where
  "plugin_exit_from [] = ([], [])"
| "plugin_exit_from (c # cs) =
     (let (c', out1) =
            (if g_string_str_not_null (insn_rec c)
             then (c\<lparr>insn_rec := insn_rec c @ ''\<newline>''\<rparr>, [insn_rec c @ ''\<newline>''])
             else (c, []));
          (cs', out2) = plugin_exit_from cs
      in (c' # cs', out1 @ out2))"

definition plugin_exit :: "plugin_state \<Rightarrow> plugin_state" where
  "plugin_exit s =
     (case plugin_exit_from (cpus s) of
        (cs', out) \<Rightarrow> s\<lparr>cpus := cs', outs := outs s @ out\<rparr>)"

section \<open>Runs of the plugin\<close>

datatype event =
  Vcpu_init nat
| Insn_exec engine nat string
| Plugin_exit

fun step :: "event \<Rightarrow> plugin_state \<Rightarrow> fault + plugin_state" where
  "step (Vcpu_init i) s = Inr (vcpu_init i s)"
| "step (Insn_exec e i udata) s = vcpu_insn_exec_cb e i udata s"
| "step Plugin_exit s = Inr (plugin_exit s)"

fun run :: "event list \<Rightarrow> plugin_state \<Rightarrow> fault + plugin_state" where
  "run [] s = Inr s"
| "run (ev # evs) s = (case step ev s of Inl f \<Rightarrow> Inl f | Inr s' \<Rightarrow> run evs s')"

definition initial :: plugin_state where
  "initial = \<lparr>cpus = [], fmt_bin = False, outs = [], errs = [], registered = []\<rparr>"

section \<open>Installation\<close>

record qemu_info_t =
  system_emulation :: bool
  max_vcpus :: nat

text \<open>
  The option loop of \<^verbatim>\<open>qemu_plugin_install\<close>. \<open>bool_parse\<close> is the emulator's
  \<^verbatim>\<open>qemu_plugin_bool_parse (name, value, &ret)\<close>: \<open>Some b\<close> when it returns true and
  stores \<open>b\<close>, \<open>None\<close> when it returns false; \<open>value\<close> is \<open>None\<close> for a NULL pointer.
  The result is whether the loop ran to its end.
\<close>

fun install_options ::
  "(string \<Rightarrow> string option \<Rightarrow> bool option) \<Rightarrow> string list \<Rightarrow> plugin_state
     \<Rightarrow> bool \<times> plugin_state" where
  "install_options bool_parse [] s = (True, s)"
| "install_options bool_parse (opt # argv) s =
     (let tokens = g_strsplit_eq_2 opt in
      if strv_nth tokens 0 = Some ''binary'' then
        (case bool_parse ''binary'' (strv_nth tokens 1) of
           None \<Rightarrow>
             (False, s\<lparr>errs := errs s @ [''boolean argument parsing failed: '' @ opt
                                           @ ''\<newline>'']\<rparr>)
         | Some b \<Rightarrow>
             install_options bool_parse argv
               (s\<lparr>fmt_bin := b,
                   errs := errs s @ [''binary format option not yet supported\<newline>'']\<rparr>))
      else (False, s\<lparr>errs := errs s @ [''option parsing failed: '' @ opt @ ''\<newline>'']\<rparr>))"

text \<open>
  \<^verbatim>\<open>qemu_plugin_install\<close>. The \<^verbatim>\<open>g_new (CPU, info->system.max_vcpus)\<close> at its start
  allocates storage and leaves \<^verbatim>\<open>num_cpus\<close> as it is, so the registry of the model,
  whose length is \<^verbatim>\<open>num_cpus\<close>, is unchanged by it.
\<close>

definition qemu_plugin_install ::
  "(string \<Rightarrow> string option \<Rightarrow> bool option) \<Rightarrow> qemu_info_t \<Rightarrow> string list \<Rightarrow> plugin_state
     \<Rightarrow> int \<times> plugin_state" where
  "qemu_plugin_install bool_parse info argv s =
     (case install_options bool_parse argv s of
        (False, s') \<Rightarrow> (- 1, s')
      | (True, s') \<Rightarrow>
          (0, s'\<lparr>registered := registered s' @ [Vcpu_init_cb, Vcpu_tb_trans_cb, Atexit_cb]\<rparr>))"

section \<open>Notions of the specification\<close>

text \<open>
  The value a byte buffer holds when its first byte is the least significant one (the
  storage order of the little-endian AArch64 target), and the number a string of
  hexadecimal digits denotes when read most significant digit first.
\<close>

fun le_value :: "byte list \<Rightarrow> nat" where
  "le_value [] = 0"
| "le_value (b # bs) = unat b + 256 * le_value bs"

definition digit_value :: "char \<Rightarrow> nat" where
  "digit_value c = length (takeWhile (\<lambda>d. d \<noteq> c) ''0123456789abcdef'')"

definition hex_value :: "string \<Rightarrow> nat" where
  "hex_value s = foldl (\<lambda>a c. 16 * a + digit_value c) 0 s"



text \<open>
  Of a sequence of core-online events met by a registry of \<open>n\<close> slots, the events
  that make the registry grow: those whose index is not yet addressable when they arrive.
\<close>

fun growing :: "nat \<Rightarrow> nat list \<Rightarrow> nat list" where
  "growing n [] = []"
| "growing n (i # rest) = (if n \<le> i then i # growing (Suc i) rest else growing n rest)"

section \<open>Sample engines and instructions\<close>

definition x3_desc :: qemu_plugin_reg_descriptor where
  "x3_desc = \<lparr>handle = 0, name = ''x3''\<rparr>"

definition ttbr0_desc :: qemu_plugin_reg_descriptor where
  "ttbr0_desc = \<lparr>handle = 1, name = ''TTBR0_EL1''\<rparr>"

text \<open>
  An engine whose cores all have the registers \<^verbatim>\<open>x3\<close>, holding 0x4005c0, and
  \<^verbatim>\<open>TTBR0_EL1\<close>, holding 0x40001000, both eight bytes stored least significant first.
\<close>

definition sample_engine :: engine where
  "sample_engine =
     \<lparr>qemu_plugin_get_registers = (\<lambda>i. [x3_desc, ttbr0_desc]),
      qemu_plugin_read_register =
        (\<lambda>i h. if h = 0 then Some [0xc0, 0x05, 0x40, 0, 0, 0, 0, 0]
               else if h = 1 then Some [0x00, 0x10, 0x00, 0x40, 0, 0, 0, 0]
               else None)\<rparr>"

text \<open>The same, with the bytes of \<^verbatim>\<open>x3\<close> stored in the opposite order.\<close>

definition swapped_engine :: engine where
  "swapped_engine =
     \<lparr>qemu_plugin_get_registers = (\<lambda>i. [x3_desc, ttbr0_desc]),
      qemu_plugin_read_register =
        (\<lambda>i h. if h = 0 then Some [0, 0, 0, 0, 0, 0x40, 0x05, 0xc0] else None)\<rparr>"

text \<open>An engine that lists \<^verbatim>\<open>x3\<close> only: a lookup of \<^verbatim>\<open>TTBR0_EL1\<close> fails.\<close>

definition bare_engine :: engine where
  "bare_engine =
     \<lparr>qemu_plugin_get_registers = (\<lambda>i. [x3_desc]),
      qemu_plugin_read_register =
        (\<lambda>i h. if h = 0 then Some [0xc0, 0x05, 0x40, 0, 0, 0, 0, 0] else None)\<rparr>"

definition bl_insn :: qemu_plugin_insn where
  "bl_insn = \<lparr>insn_vaddr = 0x400500, insn_data = 0x94000058, insn_disas = ''bl #0x4005c0''\<rparr>"

definition blr_insn :: qemu_plugin_insn where
  "blr_insn = \<lparr>insn_vaddr = 0x400504, insn_data = 0xd63f0060, insn_disas = ''blr x3''\<rparr>"

definition msr_insn :: qemu_plugin_insn where
  "msr_insn =
     \<lparr>insn_vaddr = 0x400508, insn_data = 0xd5182000, insn_disas = ''msr ttbr0_el1, x0''\<rparr>"

definition msr_insn' :: qemu_plugin_insn where
  "msr_insn' =
     \<lparr>insn_vaddr = 0x40050c, insn_data = 0xd5182001, insn_disas = ''msr ttbr0_el1, x1''\<rparr>"

definition add_insn :: qemu_plugin_insn where
  "add_insn = \<lparr>insn_vaddr = 0x400510, insn_data = 0x91000400, insn_disas = ''add x0, x0, #1''\<rparr>"

text \<open>
  The state in which core 0 is online and the callback of the first \<^verbatim>\<open>msr\<close> above has
  run: its record is pending.
\<close>

definition switch_pending :: plugin_state where
  "switch_pending =
     \<lparr>cpus = [\<lparr>insn_rec = ''0, 0x400508, 0xd5182000, msr ttbr0_el1, x0'', index = 0\<rparr>],
      fmt_bin = False, outs = [], errs = [], registered = []\<rparr>"




text \<open>Engines whose cores differ: no register at all, and registers on core 0 only.\<close>

definition empty_engine :: engine where
  "empty_engine =
     \<lparr>qemu_plugin_get_registers = (\<lambda>i. []),
      qemu_plugin_read_register =
        (\<lambda>i h. if h = 0 then Some [0xc0, 0x05, 0x40, 0, 0, 0, 0, 0] else None)\<rparr>"

definition split_engine :: engine where
  "split_engine =
     \<lparr>qemu_plugin_get_registers = (\<lambda>i. if i = 0 then [x3_desc, ttbr0_desc] else []),
      qemu_plugin_read_register =
        (\<lambda>i h. if h = 0 then Some [0xc0, 0x05, 0x40, 0, 0, 0, 0, 0] else None)\<rparr>"

definition sample_info :: qemu_info_t where
  "sample_info = \<lparr>system_emulation = True, max_vcpus = 4\<rparr>"

text \<open>
  A parser for \<open>bool_parse\<close> that accepts what the emulator's boolean options accept, and
  no NULL value.
\<close>

definition sample_bool_parse :: "string \<Rightarrow> string option \<Rightarrow> bool option" where
  "sample_bool_parse nm v =
     (case v of
        None \<Rightarrow> None
      | Some w \<Rightarrow>
          if w \<in> set [''on'', ''yes'', ''true'', ''y''] then Some True
          else if w \<in> set [''off'', ''no'', ''false'', ''n''] then Some False
          else None)"

section \<open>Auxiliary facts\<close>

subsection \<open>Formatting\<close>

lemma hex_nat_small: "n < 16 \<Longrightarrow> hex_nat n = [hex_digit n]"
  by (simp add: hex_nat.simps)

lemma hex_nat_big: "16 \<le> n \<Longrightarrow> hex_nat n = hex_nat (n div 16) @ [hex_digit (n mod 16)]"
  by (subst hex_nat.simps) simp

lemma dec_nat_small: "n < 10 \<Longrightarrow> dec_nat n = [hex_digit n]"
  by (simp add: dec_nat.simps)

lemma dec_nat_big: "10 \<le> n \<Longrightarrow> dec_nat n = dec_nat (n div 10) @ [hex_digit (n mod 10)]"
  by (subst dec_nat.simps) simp

lemma hex_digit_in: "n < 16 \<Longrightarrow> hex_digit n \<in> set ''0123456789abcdef''"
  unfolding hex_digit_def by (rule nth_mem) simp

lemma set_hex_nat: "set (hex_nat n) \<subseteq> set ''0123456789abcdef''"
proof (induction n rule: hex_nat.induct)
  case (1 n)
  show ?case
  proof (cases "n < 16")
    case True
    then show ?thesis using hex_digit_in [of n] by (simp add: hex_nat_small)
  next
    case False
    then have "set (hex_nat (n div 16)) \<subseteq> set ''0123456789abcdef''" using 1 by simp
    moreover have "hex_digit (n mod 16) \<in> set ''0123456789abcdef''"
      by (rule hex_digit_in) simp
    ultimately show ?thesis using False by (simp add: hex_nat_big)
  qed
qed

lemma set_dec_nat: "set (dec_nat n) \<subseteq> set ''0123456789abcdef''"
proof (induction n rule: dec_nat.induct)
  case (1 n)
  show ?case
  proof (cases "n < 10")
    case True
    then show ?thesis using hex_digit_in [of n] by (simp add: dec_nat_small)
  next
    case False
    then have "set (dec_nat (n div 10)) \<subseteq> set ''0123456789abcdef''" using 1 by simp
    moreover have "hex_digit (n mod 10) \<in> set ''0123456789abcdef''"
      by (rule hex_digit_in) (simp add: less_trans [OF mod_less_divisor])
    ultimately show ?thesis using False by (simp add: dec_nat_big)
  qed
qed

lemma l_notin_hex_nat: "CHR ''l'' \<notin> set (hex_nat n)"
  using set_hex_nat [of n] by auto

lemma l_notin_dec_nat: "CHR ''l'' \<notin> set (dec_nat n)"
  using set_dec_nat [of n] by auto

subsection \<open>Substring search\<close>

lemma g_strstr_len_prefix: "prefix needle s \<Longrightarrow> g_strstr_len s needle"
  by (cases s) auto

lemma g_strstr_len_append: "g_strstr_len b needle \<Longrightarrow> g_strstr_len (a @ b) needle"
  by (induction a) auto

lemma g_strstr_len_skip:
  assumes "y \<notin> set p" and "p \<noteq> [] \<Longrightarrow> last p \<noteq> x"
  shows "g_strstr_len (p @ d) (x # y # needle) = g_strstr_len d (x # y # needle)"
  using assms
proof (induction p)
  case Nil
  then show ?case by simp
next
  case (Cons c p)
  have "\<not> prefix (x # y # needle) (c # p @ d)"
  proof (cases p)
    case Nil
    then show ?thesis using Cons.prems by auto
  next
    case (Cons c' p')
    then show ?thesis using Cons.prems by auto
  qed
  moreover have "g_strstr_len (p @ d) (x # y # needle) = g_strstr_len d (x # y # needle)"
    using Cons by (cases p) auto
  ultimately show ?case by auto
qed

subsection \<open>Last occurrence of a space\<close>

lemma g_strrstr_space:
  "g_strrstr s '' '' =
     (if CHR '' '' \<in> set s
      then Some (CHR '' '' # rev (takeWhile (\<lambda>c. c \<noteq> CHR '' '') (rev s)))
      else None)"
proof (induction s)
  case Nil
  then show ?case by simp
next
  case (Cons c cs)
  show ?case
  proof (cases "CHR '' '' \<in> set cs")
    case True
    then have "takeWhile (\<lambda>c. c \<noteq> CHR '' '') (rev cs @ [c]) = takeWhile (\<lambda>c. c \<noteq> CHR '' '') (rev cs)"
      by (intro takeWhile_append1 [of "CHR '' ''"]) auto
    then show ?thesis using True Cons by simp
  next
    case False
    then have "takeWhile (\<lambda>c. c \<noteq> CHR '' '') (rev cs @ [CHR '' '']) = rev cs"
      by (subst takeWhile_append2) auto
    then show ?thesis using False Cons by auto
  qed
qed

subsection \<open>Patterns without wildcards\<close>

lemma g_pattern_literal:
  "CHR ''*'' \<notin> set p \<Longrightarrow> CHR ''?'' \<notin> set p \<Longrightarrow> g_pattern_spec_match_string p s = (s = p)"
proof (induction p arbitrary: s)
  case Nil
  then show ?case by simp
next
  case (Cons a p)
  then show ?case by (cases s) auto
qed

lemma get_reg_desc_Some:
  "get_reg_desc ds pat = Some d \<Longrightarrow> d \<in> set ds \<and> g_pattern_spec_match_string pat (name d)"
  by (induction ds) (auto split: if_splits)

lemma get_reg_desc_literal:
  "get_reg_desc ds pat = Some d \<Longrightarrow> CHR ''*'' \<notin> set pat \<Longrightarrow> CHR ''?'' \<notin> set pat \<Longrightarrow> name d = pat"
  using get_reg_desc_Some [of ds pat d] g_pattern_literal [of pat "name d"] by simp

subsection \<open>Loops in closed form\<close>

lemma append_reg_bytes_eq:
  "n \<le> length buf \<Longrightarrow> append_reg_bytes buf n rec = rec @ concat (map hex2 (rev (take n buf)))"
proof (induction n arbitrary: rec)
  case 0
  then show ?case by simp
next
  case (Suc n)
  then show ?case by (simp add: take_Suc_conv_app_nth)
qed

lemma vcpu_init_loop_eq:
  "vcpu_init_loop v cs = cs @ replicate (Suc v - length cs) \<lparr>insn_rec = [], index = v\<rparr>"
proof (induction v cs rule: vcpu_init_loop.induct)
  case (1 v cs)
  show ?case
  proof (cases "length cs \<le> v")
    case True
    then have "vcpu_init_loop v cs = vcpu_init_loop v (cs @ [\<lparr>insn_rec = [], index = v\<rparr>])"
      by (subst vcpu_init_loop.simps) simp
    also have "\<dots> = (cs @ [\<lparr>insn_rec = [], index = v\<rparr>])
        @ replicate (Suc v - length (cs @ [\<lparr>insn_rec = [], index = v\<rparr>])) \<lparr>insn_rec = [], index = v\<rparr>"
      using 1 True by simp
    also have "\<dots> = cs @ replicate (Suc v - length cs) \<lparr>insn_rec = [], index = v\<rparr>"
      using True by (simp add: Suc_diff_le replicate_append_same flip: replicate_Suc)
    finally show ?thesis .
  next
    case False
    then show ?thesis by (subst vcpu_init_loop.simps) simp
  qed
qed

lemma plugin_exit_from_eq:
  "plugin_exit_from cs =
     (map (\<lambda>c. c\<lparr>insn_rec := insn_rec c @ ''\<newline>''\<rparr>) cs, map (\<lambda>c. insn_rec c @ ''\<newline>'') cs)"
  by (induction cs) (simp_all add: g_string_str_not_null_def)

subsection \<open>The record seeded by the callback\<close>

lemma seeded_has_space:
  "g_strrstr (seed_record i u) '' '' =
     Some (CHR '' '' # rev (takeWhile (\<lambda>c. c \<noteq> CHR '' '') (rev (seed_record i u))))"
  by (simp add: g_strrstr_space seed_record_def)

lemma seeded_not_empty: "seed_record i u \<noteq> []"
  by (simp add: seed_record_def)

lemma seeded_skip:
  "y \<noteq> CHR '' '' \<Longrightarrow> y \<noteq> CHR '','' \<Longrightarrow> y \<noteq> CHR ''x'' \<Longrightarrow> y \<notin> set ''0123456789abcdef'' \<Longrightarrow>
   x \<noteq> CHR '' '' \<Longrightarrow>
   g_strstr_len (seed_record i (insn_output insn)) (x # y # needle)
     = g_strstr_len (insn_disas insn) (x # y # needle)"
proof -
  assume y: "y \<noteq> CHR '' ''" "y \<noteq> CHR '',''" "y \<noteq> CHR ''x''" "y \<notin> set ''0123456789abcdef''"
    and x: "x \<noteq> CHR '' ''"
  let ?p = "dec_nat i @ '', 0x'' @ hex_nat (unat (insn_vaddr insn)) @ '', 0x''
              @ hex_nat (unat (insn_data insn)) @ '', ''"
  have eq: "seed_record i (insn_output insn) = ?p @ insn_disas insn"
    by (simp add: insn_output_def seed_record_def)
  have "y \<notin> set (dec_nat i)" "y \<notin> set (hex_nat (unat (insn_vaddr insn)))"
    "y \<notin> set (hex_nat (unat (insn_data insn)))"
    using y(4) set_dec_nat set_hex_nat by blast+
  then have "y \<notin> set ?p" using y by simp
  moreover have "last ?p \<noteq> x" using x by simp
  ultimately show ?thesis unfolding eq by (intro g_strstr_len_skip) auto
qed

lemma seeded_bl:
  "g_strstr_len (seed_record i (insn_output insn)) ''bl'' = g_strstr_len (insn_disas insn) ''bl''"
  by (rule seeded_skip) simp_all

lemma seeded_blr:
  "g_strstr_len (seed_record i (insn_output insn)) ''blr'' = g_strstr_len (insn_disas insn) ''blr''"
  by (rule seeded_skip) simp_all

lemma seeded_prefix:
  "prefix needle (insn_disas insn) \<Longrightarrow> g_strstr_len (seed_record i (insn_output insn)) needle"
proof -
  assume "prefix needle (insn_disas insn)"
  then have "g_strstr_len (insn_disas insn) needle" by (rule g_strstr_len_prefix)
  then have "g_strstr_len ((dec_nat i @ '', 0x'' @ hex_nat (unat (insn_vaddr insn)) @ '', 0x''
              @ hex_nat (unat (insn_data insn)) @ '', '') @ insn_disas insn) needle"
    by (rule g_strstr_len_append)
  then show ?thesis by (simp add: insn_output_def seed_record_def)
qed

lemma g_strstr_len_blr_bl: "g_strstr_len s ''blr'' \<Longrightarrow> g_strstr_len s ''bl''"
  by (induction s) (auto simp add: prefix_def)

subsection \<open>The paths of the callback\<close>

lemma resolve_pending_none:
  "\<not> g_strstr_len (insn_rec c) ''msr'' \<Longrightarrow> resolve_pending e i c = Inr []"
  by (simp add: resolve_pending_def)

lemma resolve_pending_found:
  "g_strstr_len (insn_rec c) ''msr'' \<Longrightarrow>
   get_reg_desc (qemu_plugin_get_registers e (index c)) ''TTBR0_EL1'' = Some d \<Longrightarrow>
   resolve_pending e i c = Inr [read_register e i d (insn_rec c)]"
  by (cases "insn_rec c") (simp_all add: resolve_pending_def)

lemma resolve_pending_missing:
  "g_strstr_len (insn_rec c) ''msr'' \<Longrightarrow>
   get_reg_desc (qemu_plugin_get_registers e (index c)) ''TTBR0_EL1'' = None \<Longrightarrow>
   resolve_pending e i c =
     Inl [''Failed to find register TTBR0_EL1 on cpu '' @ dec_nat (index c) @ ''.\<newline>'']"
  by (cases "insn_rec c") (simp_all add: resolve_pending_def)

lemma cb_cpu_return:
  "resolve_pending e i c = Inl diag \<Longrightarrow> vcpu_insn_exec_cb_cpu e i u c = Inr (c, [], diag)"
  by (simp add: vcpu_insn_exec_cb_cpu_def)

lemma cb_cpu_bl:
  "resolve_pending e i c = Inr out1 \<Longrightarrow>
   \<not> g_strstr_len (seed_record i u) ''blr'' \<Longrightarrow>
   g_strstr_len (seed_record i u) ''bl'' \<Longrightarrow>
   vcpu_insn_exec_cb_cpu e i u c =
     Inr (c\<lparr>insn_rec := seed_record i u @ ''\<newline>''\<rparr>,
          out1 @ [seed_record i u @ ''\<newline>''], [])"
  by (simp add: vcpu_insn_exec_cb_cpu_def seeded_not_empty Let_def)

lemma cb_cpu_deferred:
  "resolve_pending e i c = Inr out1 \<Longrightarrow>
   \<not> g_strstr_len (seed_record i u) ''bl'' \<Longrightarrow>
   vcpu_insn_exec_cb_cpu e i u c = Inr (c\<lparr>insn_rec := seed_record i u\<rparr>, out1, [])"
  using g_strstr_len_blr_bl [of "seed_record i u"]
  by (auto simp add: vcpu_insn_exec_cb_cpu_def seeded_not_empty Let_def)


lemma cb_cpu_total:
  "resolve_pending e i c = Inr out1 \<Longrightarrow>
   \<exists>c' rest diag. vcpu_insn_exec_cb_cpu e i u c = Inr (c', out1 @ rest, diag) \<and> index c' = index c"
  by (auto simp add: vcpu_insn_exec_cb_cpu_def seeded_has_space seeded_not_empty Let_def
      simp del: g_strrstr.simps split: option.splits)

lemma cb_state:
  "i < length (cpus s) \<Longrightarrow> vcpu_insn_exec_cb_cpu e i u (cpus s ! i) = Inr (c', out, diag) \<Longrightarrow>
   vcpu_insn_exec_cb e i u s =
     Inr (s\<lparr>cpus := (cpus s)[i := c'], outs := outs s @ out, errs := errs s @ diag\<rparr>)"
  by (simp add: vcpu_insn_exec_cb_def get_cpu_def)

subsection \<open>Rendered bytes\<close>

lemma digit_value_hex_digit: "n < 16 \<Longrightarrow> digit_value (hex_digit n) = n"
proof -
  assume "n < 16"
  then have "n \<in> {0, 1, 2, 3, 4, 5, 6, 7, 8, 9, 10, 11, 12, 13, 14, 15}"
    by (simp, arith)
  then show ?thesis
    by (auto simp add: digit_value_def hex_digit_def)
qed

lemma hex_value_append_hex2: "hex_value (s @ hex2 b) = 256 * hex_value s + unat b"
proof -
  have "unat b div 16 < 16"
    using unsigned_less [of b, where ?'a = nat] by (simp add: less_mult_imp_div_less)
  moreover have "unat b mod 16 < 16" by simp
  ultimately show ?thesis
    by (simp add: hex_value_def hex2_def digit_value_hex_digit)
qed

lemma hex_value_rendered: "hex_value (concat (map hex2 (rev bs))) = le_value bs"
  by (induction bs) (simp_all add: hex_value_append_hex2, simp add: hex_value_def)

lemma length_rendered: "length (concat (map hex2 bs)) = 2 * length bs"
  by (induction bs) (simp_all add: hex2_def)

lemma read_register_Some:
  "qemu_plugin_read_register e i (handle d) = Some bs \<Longrightarrow>
   read_register e i d rec
     = rec @ '', '' @ name d @ '' -> 0x'' @ concat (map hex2 (rev bs)) @ ''\<newline>''"
  by (simp add: read_register_def append_reg_bytes_eq)

subsection \<open>Evaluation on concrete inputs\<close>

lemma vcpu_init_loop_grow:
  "length cs \<le> v \<Longrightarrow>
   vcpu_init_loop v cs = vcpu_init_loop v (cs @ [\<lparr>insn_rec = [], index = v\<rparr>])"
  by (subst vcpu_init_loop.simps) simp

lemma vcpu_init_loop_done: "v < length cs \<Longrightarrow> vcpu_init_loop v cs = cs"
  by (subst vcpu_init_loop.simps) simp

lemma plugin_exit_eq:
  "plugin_exit s =
     s\<lparr>cpus := map (\<lambda>c. c\<lparr>insn_rec := insn_rec c @ ''\<newline>''\<rparr>) (cpus s),
       outs := outs s @ map (\<lambda>c. insn_rec c @ ''\<newline>'') (cpus s)\<rparr>"
  unfolding plugin_exit_def by (simp add: plugin_exit_from_eq)

lemma outs_plugin_exit:
  "outs (plugin_exit s) = outs s @ map (\<lambda>c. insn_rec c @ ''\<newline>'') (cpus s)"
  by (simp add: plugin_exit_eq)

lemma cpus_plugin_exit:
  "cpus (plugin_exit s) = map (\<lambda>c. c\<lparr>insn_rec := insn_rec c @ ''\<newline>''\<rparr>) (cpus s)"
  by (simp add: plugin_exit_eq)

lemmas eval_rules0 =
  hex_nat_small hex_nat_big dec_nat_small dec_nat_big hex_digit_def hex2_def
  read_register_def seed_record_def insn_output_def resolve_pending_def
  vcpu_insn_exec_cb_cpu_def vcpu_insn_exec_cb_def get_cpu_def
  vcpu_init_def vcpu_init_loop_grow vcpu_init_loop_done
  initial_def

lemmas eval_rules = eval_rules0 plugin_exit_eq

subsection \<open>Step 1 and the operand token\<close>


lemma resolve_pending_ok:
  assumes "g_strstr_len (insn_rec c) ''msr'' \<longrightarrow>
           get_reg_desc (qemu_plugin_get_registers e (index c)) ''TTBR0_EL1'' \<noteq> None"
  shows "\<exists>out1. resolve_pending e i c = Inr out1 \<and> length out1 \<le> 1"
proof (cases "g_strstr_len (insn_rec c) ''msr''")
  case True
  with assms obtain d where
    "get_reg_desc (qemu_plugin_get_registers e (index c)) ''TTBR0_EL1'' = Some d"
    by auto
  with True show ?thesis by (simp add: resolve_pending_found)
next
  case False
  then show ?thesis by (simp add: resolve_pending_none)
qed



lemma seeded_msr:
  "g_str_has_prefix (insn_disas insn) ''msr ttbr0'' \<Longrightarrow>
   g_strstr_len (seed_record i (insn_output insn)) ''msr''"
proof -
  assume "g_str_has_prefix (insn_disas insn) ''msr ttbr0''"
  then have "prefix (''msr'' @ '' ttbr0'') (insn_disas insn)"
    by (simp add: g_str_has_prefix_def)
  then have "prefix ''msr'' (insn_disas insn)" by (rule append_prefixD)
  then show ?thesis by (rule seeded_prefix)
qed

subsection \<open>The scanner, the options and the registry\<close>

lemma vcpu_tb_trans_from_eq:
  "vcpu_tb_trans_from i tb =
     map (\<lambda>j. (i + j, QEMU_PLUGIN_CB_R_REGS, insn_output (tb ! j)))
       (filter (\<lambda>j. g_str_has_prefix (insn_disas (tb ! j)) ''bl''
                    \<or> g_str_has_prefix (insn_disas (tb ! j)) ''msr ttbr0'') [0..<length tb])"
proof (induction tb arbitrary: i)
  case Nil
  then show ?case by simp
next
  case (Cons insn rest)
  have upt: "[0..<length (insn # rest)] = 0 # map Suc [0..<length rest]"
    by (simp add: upt_conv_Cons map_Suc_upt del: upt_Suc)
  show ?case
    unfolding upt
    by (simp add: Cons.IH filter_map comp_def Let_def del: upt_Suc)
qed

lemma vcpu_tb_trans_eq:
  "vcpu_tb_trans tb =
     map (\<lambda>j. (j, QEMU_PLUGIN_CB_R_REGS, insn_output (tb ! j)))
       (filter (\<lambda>j. g_str_has_prefix (insn_disas (tb ! j)) ''bl''
                    \<or> g_str_has_prefix (insn_disas (tb ! j)) ''msr ttbr0'') [0..<length tb])"
  by (simp add: vcpu_tb_trans_def vcpu_tb_trans_from_eq)

lemma install_options_fst:
  "fst (install_options bp argv s) =
     (\<forall>opt \<in> set argv. strv_nth (g_strsplit_eq_2 opt) 0 = Some ''binary''
        \<and> bp ''binary'' (strv_nth (g_strsplit_eq_2 opt) 1) \<noteq> None)"
  by (induction argv arbitrary: s) (auto simp add: Let_def split: option.splits)

lemma install_options_frame:
  "registered (snd (install_options bp argv s)) = registered s
   \<and> cpus (snd (install_options bp argv s)) = cpus s
   \<and> outs (snd (install_options bp argv s)) = outs s"
  by (induction argv arbitrary: s) (auto simp add: Let_def split: option.splits)

lemma install_options_errs:
  "fst (install_options bp argv s) \<Longrightarrow>
   errs (snd (install_options bp argv s))
     = errs s @ replicate (length argv) ''binary format option not yet supported\<newline>''"
proof (induction argv arbitrary: s)
  case Nil
  then show ?case by simp
next
  case (Cons opt argv)
  from Cons.prems obtain b where
    k: "strv_nth (g_strsplit_eq_2 opt) 0 = Some ''binary''" and
    b: "bp ''binary'' (strv_nth (g_strsplit_eq_2 opt) 1) = Some b"
    by (auto simp add: Let_def split: option.splits if_splits)
  let ?s = "s\<lparr>fmt_bin := b, errs := errs s @ [''binary format option not yet supported\<newline>'']\<rparr>"
  have step: "install_options bp (opt # argv) s = install_options bp argv ?s"
    using k b by (simp add: Let_def)
  with Cons.prems have "fst (install_options bp argv ?s)" by simp
  from Cons.IH [OF this] show ?case
    unfolding step by (simp add: replicate_append_same)
qed

lemma vcpu_init_fmt_bin: "vcpu_init i (s\<lparr>fmt_bin := b\<rparr>) = (vcpu_init i s)\<lparr>fmt_bin := b\<rparr>"
  by (simp add: vcpu_init_def)

lemma plugin_exit_fmt_bin: "plugin_exit (s\<lparr>fmt_bin := b\<rparr>) = (plugin_exit s)\<lparr>fmt_bin := b\<rparr>"
  by (simp add: plugin_exit_eq)

lemma vcpu_insn_exec_cb_fmt_bin:
  "vcpu_insn_exec_cb e i u (s\<lparr>fmt_bin := b\<rparr>)
     = map_sum id (\<lambda>t. t\<lparr>fmt_bin := b\<rparr>) (vcpu_insn_exec_cb e i u s)"
  by (simp add: vcpu_insn_exec_cb_def get_cpu_def split: sum.splits prod.splits)

lemma step_fmt_bin:
  "step ev (s\<lparr>fmt_bin := b\<rparr>) = map_sum id (\<lambda>t. t\<lparr>fmt_bin := b\<rparr>) (step ev s)"
  by (cases ev) (simp_all add: vcpu_init_fmt_bin plugin_exit_fmt_bin vcpu_insn_exec_cb_fmt_bin)

lemma run_fmt_bin:
  "run evs (s\<lparr>fmt_bin := b\<rparr>) = map_sum id (\<lambda>t. t\<lparr>fmt_bin := b\<rparr>) (run evs s)"
proof (induction evs arbitrary: s)
  case Nil
  then show ?case by simp
next
  case (Cons ev evs)
  show ?case
  proof (cases "step ev s")
    case (Inl f)
    then show ?thesis by (simp add: step_fmt_bin)
  next
    case (Inr s')
    then show ?thesis by (simp add: step_fmt_bin Cons.IH)
  qed
qed

lemma tokens_binary_true: "g_strsplit_eq_2 ''binary=true'' = [''binary'', ''true'']"
  by (simp add: g_strsplit_eq_2_def)

lemma tokens_binary_maybe: "g_strsplit_eq_2 ''binary=maybe'' = [''binary'', ''maybe'']"
  by (simp add: g_strsplit_eq_2_def)

lemma tokens_verbose: "g_strsplit_eq_2 ''verbose=on'' = [''verbose'', ''on'']"
  by (simp add: g_strsplit_eq_2_def)

lemma cpus_vcpu_init:
  "cpus (vcpu_init i s) =
     cpus s @ replicate (Suc i - length (cpus s)) \<lparr>insn_rec = [], index = i\<rparr>"
  by (simp add: vcpu_init_def vcpu_init_loop_eq)

lemma run_vcpu_inits: "run (map Vcpu_init ids) s = Inr (fold vcpu_init ids s)"
  by (induction ids arbitrary: s) simp_all

lemma cpus_fold_vcpu_init: "\<exists>more. cpus (fold vcpu_init ids s) = cpus s @ more"
proof (induction ids arbitrary: s)
  case Nil
  then show ?case by simp
next
  case (Cons i rest)
  from Cons.IH [of "vcpu_init i s"] obtain more where
    "cpus (fold vcpu_init rest (vcpu_init i s)) = cpus (vcpu_init i s) @ more" by blast
  then show ?case by (simp add: cpus_vcpu_init)
qed

lemma tags_growing:
  assumes "\<forall>k < length (cpus s). index (cpus s ! k) = k"
  shows "(\<forall>k < length (cpus (fold vcpu_init ids s)). index (cpus (fold vcpu_init ids s) ! k) = k)
         = (growing (length (cpus s)) ids = [length (cpus s)..<length (cpus (fold vcpu_init ids s))])"
  using assms
proof (induction ids arbitrary: s)
  case Nil
  then show ?case by simp
next
  case (Cons i rest)
  let ?n = "length (cpus s)"
  let ?s1 = "vcpu_init i s"
  let ?fin = "fold vcpu_init rest ?s1"
  from cpus_fold_vcpu_init [of rest ?s1] obtain more where
    fin: "cpus ?fin = cpus ?s1 @ more" by blast
  show ?case
  proof (cases "i < ?n")
    case True
    then have "?s1 = s" by (simp add: vcpu_init_def)
    then show ?thesis using Cons True by simp
  next
    case False
    then have s1: "cpus ?s1 = cpus s @ replicate (Suc i - ?n) \<lparr>insn_rec = [], index = i\<rparr>"
      and len1: "length (cpus ?s1) = Suc i"
      by (simp_all add: cpus_vcpu_init)
    show ?thesis
    proof (cases "i = ?n")
      case True
      then have "cpus ?s1 = cpus s @ [\<lparr>insn_rec = [], index = ?n\<rparr>]" using s1 by simp
      then have ok1: "\<forall>k < length (cpus ?s1). index (cpus ?s1 ! k) = k"
        using Cons.prems by (auto simp add: nth_append)
      have lt: "?n < length (cpus ?fin)" using fin len1 True by simp
      have "[?n..<length (cpus ?fin)] = ?n # [Suc ?n..<length (cpus ?fin)]"
        using lt by (rule upt_conv_Cons)
      then show ?thesis using Cons.IH [OF ok1] True len1 by simp
    next
      case neq: False
      with False have gt: "?n < i" by simp
      then have "cpus ?fin ! ?n = \<lparr>insn_rec = [], index = i\<rparr>"
        unfolding fin s1 by (simp add: nth_append)
      moreover have "?n < length (cpus ?fin)" using fin len1 gt by simp
      ultimately have bad: "\<not> (\<forall>k < length (cpus ?fin). index (cpus ?fin ! k) = k)"
        using neq by (metis CPU.select_convs(2))
      have "growing ?n (i # rest) \<noteq> [?n..<length (cpus ?fin)]"
      proof
        assume eq: "growing ?n (i # rest) = [?n..<length (cpus ?fin)]"
        have "hd (growing ?n (i # rest)) = i" using False by simp
        moreover have "growing ?n (i # rest) \<noteq> []" using False by simp
        ultimately show False using eq neq by (cases "?n < length (cpus ?fin)") (simp_all add: upt_conv_Cons)
      qed
      with bad show ?thesis by simp
    qed
  qed
qed

lemma read_register_cong:
  "qemu_plugin_read_register e = qemu_plugin_read_register e' \<Longrightarrow>
   read_register e = read_register e'"
  by (intro ext) (simp add: read_register_def)

lemma resolve_pending_cong:
  assumes "qemu_plugin_get_registers e (index c) = qemu_plugin_get_registers e' (index c)"
    and "qemu_plugin_read_register e = qemu_plugin_read_register e'"
  shows "resolve_pending e i c = resolve_pending e' i c"
  unfolding resolve_pending_def assms(1) read_register_cong [OF assms(2)] ..

lemma callback_uses_stored_tag:
  assumes "qemu_plugin_get_registers e (index c) = qemu_plugin_get_registers e' (index c)"
    and "qemu_plugin_read_register e = qemu_plugin_read_register e'"
  shows "vcpu_insn_exec_cb_cpu e i u c = vcpu_insn_exec_cb_cpu e' i u c"
  unfolding vcpu_insn_exec_cb_cpu_def assms(1) read_register_cong [OF assms(2)]
    resolve_pending_cong [OF assms] ..

section \<open>The Event Correlator\<close>

text \<open>
  Claim C1, as amended. Let two address-space-switch instructions \<open>S1\<close> and \<open>S2\<close>
  execute on a core one after the other (their disassembly starts with \<^verbatim>\<open>msr ttbr0\<close>
  and has no \<^verbatim>\<open>bl\<close> in it), where the first block of the callback of \<open>S1\<close> does
  not return early (no address-space switch is pending on the core, or \<^verbatim>\<open>TTBR0_EL1\<close>
  is found) and \<^verbatim>\<open>TTBR0_EL1\<close> is found at the callback of \<open>S2\<close> and at the one
  after it. The callback of \<open>S1\<close> emits no record for \<open>S1\<close>: it emits at most one
  record, that of the switch that was pending before, none when no switch was pending,
  and it leaves the record of \<open>S1\<close> pending. The callback of \<open>S2\<close> emits exactly
  the record of \<open>S1\<close>, completed with the value of the register read at that moment:
  the record of \<open>S1\<close> is not lost. The next callback on the core, whatever its
  instruction, starts by emitting the record of \<open>S2\<close>, completed in the same way.
\<close>

theorem consecutive_switches_both_emitted:
  assumes "i < length (cpus s)"
    and "g_strstr_len (insn_rec (cpus s ! i)) ''msr'' \<longrightarrow>
         get_reg_desc (qemu_plugin_get_registers e1 (index (cpus s ! i))) ''TTBR0_EL1'' \<noteq> None"
    and "g_str_has_prefix (insn_disas S1) ''msr ttbr0''"
    and "\<not> g_strstr_len (insn_disas S1) ''bl''"
    and "g_str_has_prefix (insn_disas S2) ''msr ttbr0''"
    and "\<not> g_strstr_len (insn_disas S2) ''bl''"
    and "get_reg_desc (qemu_plugin_get_registers e2 (index (cpus s ! i))) ''TTBR0_EL1'' = Some d2"
    and "get_reg_desc (qemu_plugin_get_registers e3 (index (cpus s ! i))) ''TTBR0_EL1'' = Some d3"
  shows "\<exists>s1 s2 s3 out1 rest.
           vcpu_insn_exec_cb e1 i (insn_output S1) s = Inr s1
         \<and> resolve_pending e1 i (cpus s ! i) = Inr out1 \<and> length out1 \<le> 1
         \<and> (\<not> g_strstr_len (insn_rec (cpus s ! i)) ''msr'' \<longrightarrow> out1 = [])
         \<and> outs s1 = outs s @ out1
         \<and> insn_rec (cpus s1 ! i) = seed_record i (insn_output S1)
         \<and> vcpu_insn_exec_cb e2 i (insn_output S2) s1 = Inr s2
         \<and> outs s2 = outs s1 @ [read_register e2 i d2 (seed_record i (insn_output S1))]
         \<and> insn_rec (cpus s2 ! i) = seed_record i (insn_output S2)
         \<and> vcpu_insn_exec_cb e3 i u3 s2 = Inr s3
         \<and> outs s3 = outs s2 @ [read_register e3 i d3 (seed_record i (insn_output S2))] @ rest
         \<and> name d2 = ''TTBR0_EL1'' \<and> name d3 = ''TTBR0_EL1''"
proof -
  let ?c0 = "cpus s ! i"
  let ?rec1 = "seed_record i (insn_output S1)" and ?rec2 = "seed_record i (insn_output S2)"
  from resolve_pending_ok [OF assms(2)] obtain out1 where
    rp: "resolve_pending e1 i ?c0 = Inr out1" and len: "length out1 \<le> 1" by blast
  have quiet: "\<not> g_strstr_len (insn_rec ?c0) ''msr'' \<longrightarrow> out1 = []"
    using rp by (auto simp add: resolve_pending_none)
  let ?c1 = "?c0\<lparr>insn_rec := ?rec1\<rparr>"
  let ?s1 = "s\<lparr>cpus := (cpus s)[i := ?c1], outs := outs s @ out1, errs := errs s @ []\<rparr>"
  let ?out2 = "read_register e2 i d2 ?rec1"
  let ?c2 = "?c1\<lparr>insn_rec := ?rec2\<rparr>"
  let ?s2 = "?s1\<lparr>cpus := (cpus ?s1)[i := ?c2], outs := outs ?s1 @ [?out2],
                errs := errs ?s1 @ []\<rparr>"
  let ?out3 = "read_register e3 i d3 ?rec2"
  have no_bl1: "\<not> g_strstr_len ?rec1 ''bl''" using assms(4) by (simp add: seeded_bl)
  have no_bl2: "\<not> g_strstr_len ?rec2 ''bl''" using assms(6) by (simp add: seeded_bl)
  have msr1: "g_strstr_len (insn_rec ?c1) ''msr''" using seeded_msr [OF assms(3)] by simp
  have msr2: "g_strstr_len (insn_rec ?c2) ''msr''" using seeded_msr [OF assms(5)] by simp
  \<comment> \<open>the callback of the first switch\<close>
  have "vcpu_insn_exec_cb_cpu e1 i (insn_output S1) ?c0 = Inr (?c1, out1, [])"
    using rp no_bl1 by (rule cb_cpu_deferred)
  then have run1: "vcpu_insn_exec_cb e1 i (insn_output S1) s = Inr ?s1"
    by (rule cb_state [OF assms(1)])
  have in1: "i < length (cpus ?s1)" and at1: "cpus ?s1 ! i = ?c1" using assms(1) by simp_all
  \<comment> \<open>the callback of the second switch\<close>
  have "get_reg_desc (qemu_plugin_get_registers e2 (index ?c1)) ''TTBR0_EL1'' = Some d2"
    using assms(7) by simp
  with msr1 have "resolve_pending e2 i ?c1 = Inr [read_register e2 i d2 (insn_rec ?c1)]"
    by (rule resolve_pending_found)
  then have "resolve_pending e2 i ?c1 = Inr [?out2]" by simp
  then have "vcpu_insn_exec_cb_cpu e2 i (insn_output S2) ?c1 = Inr (?c2, [?out2], [])"
    using no_bl2 by (rule cb_cpu_deferred)
  then have "vcpu_insn_exec_cb_cpu e2 i (insn_output S2) (cpus ?s1 ! i) = Inr (?c2, [?out2], [])"
    by (simp only: at1)
  then have run2: "vcpu_insn_exec_cb e2 i (insn_output S2) ?s1 = Inr ?s2"
    by (rule cb_state [OF in1])
  have in2: "i < length (cpus ?s2)" and at2: "cpus ?s2 ! i = ?c2" using assms(1) by simp_all
  \<comment> \<open>the next callback on this core\<close>
  have "get_reg_desc (qemu_plugin_get_registers e3 (index ?c2)) ''TTBR0_EL1'' = Some d3"
    using assms(8) by simp
  with msr2 have "resolve_pending e3 i ?c2 = Inr [read_register e3 i d3 (insn_rec ?c2)]"
    by (rule resolve_pending_found)
  then have "resolve_pending e3 i ?c2 = Inr [?out3]" by simp
  from cb_cpu_total [OF this, of u3] obtain c3 rest diag where
    "vcpu_insn_exec_cb_cpu e3 i u3 ?c2 = Inr (c3, [?out3] @ rest, diag)" by blast
  then have "vcpu_insn_exec_cb_cpu e3 i u3 (cpus ?s2 ! i) = Inr (c3, [?out3] @ rest, diag)"
    by (simp only: at2)
  from cb_state [OF in2 this] have run3:
    "vcpu_insn_exec_cb e3 i u3 ?s2
       = Inr (?s2\<lparr>cpus := (cpus ?s2)[i := c3], outs := outs ?s2 @ [?out3] @ rest,
                 errs := errs ?s2 @ diag\<rparr>)" .
  have n2: "name d2 = ''TTBR0_EL1''" by (rule get_reg_desc_literal [OF assms(7)]) simp_all
  have n3: "name d3 = ''TTBR0_EL1''" by (rule get_reg_desc_literal [OF assms(8)]) simp_all
  from run1 run2 run3 rp len quiet at1 at2 n2 n3 show ?thesis
    by (intro exI [of _ ?s1] exI [of _ ?s2]
          exI [of _ "?s2\<lparr>cpus := (cpus ?s2)[i := c3], outs := outs ?s2 @ [?out3] @ rest,
                          errs := errs ?s2 @ diag\<rparr>"] exI [of _ out1] exI [of _ rest]) simp
qed

text \<open>
  Three \<^verbatim>\<open>msr ttbr0_el1\<close> instructions in a row and then a \<^verbatim>\<open>bl\<close>, on core 0 of the
  sample engine: the first one is pending when the callback of the second one starts.
\<close>

theorem consecutive_switches_both_emitted_witness:
  "run [Vcpu_init 0, Insn_exec sample_engine 0 (insn_output msr_insn)] initial = Inr switch_pending
   \<and> 0 < length (cpus switch_pending)
   \<and> g_strstr_len (insn_rec (cpus switch_pending ! 0)) ''msr''
   \<and> get_reg_desc (qemu_plugin_get_registers sample_engine
         (index (cpus switch_pending ! 0))) ''TTBR0_EL1'' = Some ttbr0_desc
   \<and> g_str_has_prefix (insn_disas msr_insn') ''msr ttbr0''
   \<and> \<not> g_strstr_len (insn_disas msr_insn') ''bl''
   \<and> g_str_has_prefix (insn_disas msr_insn) ''msr ttbr0''
   \<and> \<not> g_strstr_len (insn_disas msr_insn) ''bl''
   \<and> (\<exists>s1 s2 s3 rest.
         vcpu_insn_exec_cb sample_engine 0 (insn_output msr_insn') switch_pending = Inr s1
       \<and> outs s1 = [''0, 0x400508, 0xd5182000, msr ttbr0_el1, x0, TTBR0_EL1 -> 0x0000000040001000\<newline>'']
       \<and> insn_rec (cpus s1 ! 0) = ''0, 0x40050c, 0xd5182001, msr ttbr0_el1, x1''
       \<and> vcpu_insn_exec_cb sample_engine 0 (insn_output msr_insn) s1 = Inr s2
       \<and> outs s2 = outs s1
           @ [''0, 0x40050c, 0xd5182001, msr ttbr0_el1, x1, TTBR0_EL1 -> 0x0000000040001000\<newline>'']
       \<and> vcpu_insn_exec_cb sample_engine 0 (insn_output bl_insn) s2 = Inr s3
       \<and> outs s3 = outs s2
           @ [''0, 0x400508, 0xd5182000, msr ttbr0_el1, x0, TTBR0_EL1 -> 0x0000000040001000\<newline>'']
           @ rest)"
proof -
  have h0: "run [Vcpu_init 0, Insn_exec sample_engine 0 (insn_output msr_insn)] initial
              = Inr switch_pending"
    by (simp add: eval_rules switch_pending_def sample_engine_def x3_desc_def ttbr0_desc_def
        msr_insn_def)
  have h1: "0 < length (cpus switch_pending)" by (simp add: switch_pending_def)
  have m: "g_strstr_len (insn_rec (cpus switch_pending ! 0)) ''msr''"
    by (simp add: switch_pending_def)
  have h7: "get_reg_desc (qemu_plugin_get_registers sample_engine
              (index (cpus switch_pending ! 0))) ''TTBR0_EL1'' = Some ttbr0_desc"
    by (simp add: sample_engine_def x3_desc_def ttbr0_desc_def)
  then have h2: "g_strstr_len (insn_rec (cpus switch_pending ! 0)) ''msr'' \<longrightarrow>
      get_reg_desc (qemu_plugin_get_registers sample_engine (index (cpus switch_pending ! 0)))
        ''TTBR0_EL1'' \<noteq> None" by simp
  have h3: "g_str_has_prefix (insn_disas msr_insn') ''msr ttbr0''"
    by (simp add: msr_insn'_def g_str_has_prefix_def)
  have h4: "\<not> g_strstr_len (insn_disas msr_insn') ''bl''" by (simp add: msr_insn'_def)
  have h5: "g_str_has_prefix (insn_disas msr_insn) ''msr ttbr0''"
    by (simp add: msr_insn_def g_str_has_prefix_def)
  have h6: "\<not> g_strstr_len (insn_disas msr_insn) ''bl''" by (simp add: msr_insn_def)
  have rp: "resolve_pending sample_engine 0 (cpus switch_pending ! 0)
      = Inr [''0, 0x400508, 0xd5182000, msr ttbr0_el1, x0, TTBR0_EL1 -> 0x0000000040001000\<newline>'']"
    by (simp add: eval_rules switch_pending_def sample_engine_def x3_desc_def ttbr0_desc_def)
  have s1: "seed_record 0 (insn_output msr_insn') = ''0, 0x40050c, 0xd5182001, msr ttbr0_el1, x1''"
    by (simp add: eval_rules msr_insn'_def)
  have r1: "read_register sample_engine 0 ttbr0_desc (seed_record 0 (insn_output msr_insn'))
      = ''0, 0x40050c, 0xd5182001, msr ttbr0_el1, x1, TTBR0_EL1 -> 0x0000000040001000\<newline>''"
    by (simp add: eval_rules sample_engine_def x3_desc_def ttbr0_desc_def msr_insn'_def)
  have r2: "read_register sample_engine 0 ttbr0_desc (seed_record 0 (insn_output msr_insn))
      = ''0, 0x400508, 0xd5182000, msr ttbr0_el1, x0, TTBR0_EL1 -> 0x0000000040001000\<newline>''"
    by (simp add: eval_rules sample_engine_def x3_desc_def ttbr0_desc_def msr_insn_def)
  have o: "outs switch_pending = []" by (simp add: switch_pending_def)
  from consecutive_switches_both_emitted [OF h1 h2 h3 h4 h5 h6 h7 h7, where ?u3.0 = "insn_output bl_insn"]
  obtain s1 s2 s3 out1 rest where
    a: "vcpu_insn_exec_cb sample_engine 0 (insn_output msr_insn') switch_pending = Inr s1"
    and b: "resolve_pending sample_engine 0 (cpus switch_pending ! 0) = Inr out1"
    and c: "outs s1 = outs switch_pending @ out1"
    and d: "insn_rec (cpus s1 ! 0) = seed_record 0 (insn_output msr_insn')"
    and e: "vcpu_insn_exec_cb sample_engine 0 (insn_output msr_insn) s1 = Inr s2"
    and f: "outs s2 = outs s1
              @ [read_register sample_engine 0 ttbr0_desc (seed_record 0 (insn_output msr_insn'))]"
    and g: "vcpu_insn_exec_cb sample_engine 0 (insn_output bl_insn) s2 = Inr s3"
    and h: "outs s3 = outs s2
              @ [read_register sample_engine 0 ttbr0_desc (seed_record 0 (insn_output msr_insn))]
              @ rest"
    by blast
  from b rp have "out1 =
      [''0, 0x400508, 0xd5182000, msr ttbr0_el1, x0, TTBR0_EL1 -> 0x0000000040001000\<newline>'']"
    by simp
  with c o have c': "outs s1 =
      [''0, 0x400508, 0xd5182000, msr ttbr0_el1, x0, TTBR0_EL1 -> 0x0000000040001000\<newline>'']"
    by simp
  have "\<exists>s1 s2 s3 rest.
         vcpu_insn_exec_cb sample_engine 0 (insn_output msr_insn') switch_pending = Inr s1
       \<and> outs s1 = [''0, 0x400508, 0xd5182000, msr ttbr0_el1, x0, TTBR0_EL1 -> 0x0000000040001000\<newline>'']
       \<and> insn_rec (cpus s1 ! 0) = ''0, 0x40050c, 0xd5182001, msr ttbr0_el1, x1''
       \<and> vcpu_insn_exec_cb sample_engine 0 (insn_output msr_insn) s1 = Inr s2
       \<and> outs s2 = outs s1
           @ [''0, 0x40050c, 0xd5182001, msr ttbr0_el1, x1, TTBR0_EL1 -> 0x0000000040001000\<newline>'']
       \<and> vcpu_insn_exec_cb sample_engine 0 (insn_output bl_insn) s2 = Inr s3
       \<and> outs s3 = outs s2
           @ [''0, 0x400508, 0xd5182000, msr ttbr0_el1, x0, TTBR0_EL1 -> 0x0000000040001000\<newline>'']
           @ rest"
    using a c' d [unfolded s1] e f [unfolded r1] g h [unfolded r2]
    by (intro exI [of _ s1] exI [of _ s2] exI [of _ s3] exI [of _ rest] conjI)
  then show ?thesis using h0 h1 m h7 h3 h4 h5 h6 by (intro conjI)
qed

text \<open>
  Claim C1 as the specification states it fails: after two consecutive
  address-space-switch instructions the record of the first one has been emitted.
\<close>

theorem first_switch_emitted_at_second:
  "map_sum id outs
     (run [Vcpu_init 0,
           Insn_exec sample_engine 0 (insn_output msr_insn),
           Insn_exec sample_engine 0 (insn_output msr_insn')] initial)
   = Inr [''0, 0x400508, 0xd5182000, msr ttbr0_el1, x0, TTBR0_EL1 -> 0x0000000040001000\<newline>'']"
  by (simp add: eval_rules sample_engine_def x3_desc_def ttbr0_desc_def msr_insn_def msr_insn'_def)

text \<open>
  Claim C2 describes what the function's own comment promises (the next instruction is
  logged if it is a \<^verbatim>\<open>bl\<close> or \<^verbatim>\<open>blr\<close>), and the code does not do it. On an engine
  without \<^verbatim>\<open>TTBR0_EL1\<close>, once an \<^verbatim>\<open>msr ttbr0_el1\<close> is pending on core 0 the callback
  of a following \<^verbatim>\<open>bl\<close> prints the diagnostic and returns before the record is
  overwritten: the stale record stays, the \<^verbatim>\<open>bl\<close> is neither stored nor emitted, and
  the same happens to every later instruction of the core.
\<close>

theorem lookup_failure_keeps_stale_record:
  "map_sum id (\<lambda>s. (map insn_rec (cpus s), outs s, errs s))
     (run [Vcpu_init 0,
           Insn_exec bare_engine 0 (insn_output msr_insn),
           Insn_exec bare_engine 0 (insn_output bl_insn),
           Insn_exec bare_engine 0 (insn_output bl_insn)] initial)
   = Inr ([''0, 0x400508, 0xd5182000, msr ttbr0_el1, x0''],
          [],
          [''Failed to find register TTBR0_EL1 on cpu 0.\<newline>'',
           ''Failed to find register TTBR0_EL1 on cpu 0.\<newline>''])"
  by (simp add: eval_rules bare_engine_def x3_desc_def bl_insn_def msr_insn_def)

text \<open>
  Claim C3, as amended. Let a direct branch-with-link instruction execute (its
  disassembly starts with \<^verbatim>\<open>bl\<close> and has no \<^verbatim>\<open>blr\<close> in it), on a core where the first
  block of the callback does not return early (no address-space switch is pending, or
  \<^verbatim>\<open>TTBR0_EL1\<close> is found). Then the callback emits, after the at most one record of
  the pending switch, exactly one record for the instruction, in this same invocation:
  the core index, the address, the encoding and the disassembly followed by a newline,
  with no register segment. The record is left in the buffer, so that the shutdown
  handler, if no other instruction of the core has replaced it, emits it once more with a
  second newline.
\<close>

theorem direct_branch_emitted_at_once:
  assumes "i < length (cpus s)"
    and "g_str_has_prefix (insn_disas insn) ''bl''"
    and "\<not> g_strstr_len (insn_disas insn) ''blr''"
    and "g_strstr_len (insn_rec (cpus s ! i)) ''msr'' \<longrightarrow>
         get_reg_desc (qemu_plugin_get_registers e (index (cpus s ! i))) ''TTBR0_EL1'' \<noteq> None"
  shows "\<exists>s' out1.
           vcpu_insn_exec_cb e i (insn_output insn) s = Inr s'
         \<and> resolve_pending e i (cpus s ! i) = Inr out1 \<and> length out1 \<le> 1
         \<and> outs s' = outs s @ out1 @ [seed_record i (insn_output insn) @ ''\<newline>'']
         \<and> seed_record i (insn_output insn) @ ''\<newline>''
             = dec_nat i @ '', 0x'' @ hex_nat (unat (insn_vaddr insn)) @ '', 0x''
                 @ hex_nat (unat (insn_data insn)) @ '', '' @ insn_disas insn @ ''\<newline>''
         \<and> insn_rec (cpus s' ! i) = seed_record i (insn_output insn) @ ''\<newline>''
         \<and> outs (plugin_exit s') ! (length (outs s') + i)
             = seed_record i (insn_output insn) @ ''\<newline>\<newline>''"
proof -
  let ?c = "cpus s ! i" and ?rec = "seed_record i (insn_output insn)"
  from resolve_pending_ok [OF assms(4)] obtain out1 where
    rp: "resolve_pending e i ?c = Inr out1" and len: "length out1 \<le> 1" by blast
  have no_blr: "\<not> g_strstr_len ?rec ''blr''" using assms(3) by (simp add: seeded_blr)
  have bl: "g_strstr_len ?rec ''bl''"
    using assms(2) by (simp add: seeded_prefix g_str_has_prefix_def)
  let ?c' = "?c\<lparr>insn_rec := ?rec @ ''\<newline>''\<rparr>"
  let ?s' = "s\<lparr>cpus := (cpus s)[i := ?c'], outs := outs s @ out1 @ [?rec @ ''\<newline>''],
               errs := errs s @ []\<rparr>"
  have "vcpu_insn_exec_cb_cpu e i (insn_output insn) ?c = Inr (?c', out1 @ [?rec @ ''\<newline>''], [])"
    by (rule cb_cpu_bl [OF rp no_blr bl])
  then have run: "vcpu_insn_exec_cb e i (insn_output insn) s = Inr ?s'"
    by (rule cb_state [OF assms(1)])
  have pending: "insn_rec (cpus ?s' ! i) = ?rec @ ''\<newline>''" using assms(1) by simp
  have "outs (plugin_exit ?s') ! (length (outs ?s') + i)
          = map (\<lambda>c. insn_rec c @ ''\<newline>'') (cpus ?s') ! i"
    unfolding outs_plugin_exit by (rule nth_append_length_plus)
  also have "\<dots> = ?rec @ ''\<newline>\<newline>''" using assms(1) by simp
  finally have again: "outs (plugin_exit ?s') ! (length (outs ?s') + i) = ?rec @ ''\<newline>\<newline>''" .
  have shape: "?rec @ ''\<newline>''
       = dec_nat i @ '', 0x'' @ hex_nat (unat (insn_vaddr insn)) @ '', 0x''
           @ hex_nat (unat (insn_data insn)) @ '', '' @ insn_disas insn @ ''\<newline>''"
    by (simp add: seed_record_def insn_output_def)
  from run rp len pending again shape show ?thesis
    by (intro exI [of _ ?s'] exI [of _ out1]) simp
qed

text \<open>The \<^verbatim>\<open>bl #0x4005c0\<close> at 0x400500 of the specification's scenario, on core 0.\<close>

theorem direct_branch_emitted_at_once_witness:
  "0 < length (cpus (vcpu_init 0 initial))
   \<and> g_str_has_prefix (insn_disas bl_insn) ''bl''
   \<and> \<not> g_strstr_len (insn_disas bl_insn) ''blr''
   \<and> \<not> g_strstr_len (insn_rec (cpus (vcpu_init 0 initial) ! 0)) ''msr''
   \<and> (\<exists>s'. vcpu_insn_exec_cb sample_engine 0 (insn_output bl_insn) (vcpu_init 0 initial) = Inr s'
          \<and> outs s' = [''0, 0x400500, 0x94000058, bl #0x4005c0\<newline>'']
          \<and> insn_rec (cpus s' ! 0) = ''0, 0x400500, 0x94000058, bl #0x4005c0\<newline>''
          \<and> outs (plugin_exit s') ! 1 = ''0, 0x400500, 0x94000058, bl #0x4005c0\<newline>\<newline>'')"
proof -
  have h1: "0 < length (cpus (vcpu_init 0 initial))"
    by (simp add: eval_rules sample_engine_def x3_desc_def ttbr0_desc_def bl_insn_def)
  have h2: "g_str_has_prefix (insn_disas bl_insn) ''bl''"
    by (simp add: bl_insn_def g_str_has_prefix_def)
  have h3: "\<not> g_strstr_len (insn_disas bl_insn) ''blr''" by (simp add: bl_insn_def)
  have h4: "\<not> g_strstr_len (insn_rec (cpus (vcpu_init 0 initial) ! 0)) ''msr''"
    by (simp add: eval_rules sample_engine_def x3_desc_def ttbr0_desc_def bl_insn_def)
  then have h4': "g_strstr_len (insn_rec (cpus (vcpu_init 0 initial) ! 0)) ''msr'' \<longrightarrow>
      get_reg_desc (qemu_plugin_get_registers sample_engine (index (cpus (vcpu_init 0 initial) ! 0)))
        ''TTBR0_EL1'' \<noteq> None" by simp
  have r: "seed_record 0 (insn_output bl_insn) = ''0, 0x400500, 0x94000058, bl #0x4005c0''"
    by (simp add: eval_rules sample_engine_def x3_desc_def ttbr0_desc_def bl_insn_def)
  have rp: "resolve_pending sample_engine 0 (cpus (vcpu_init 0 initial) ! 0) = Inr []"
    using h4 by (rule resolve_pending_none)
  have o: "outs (vcpu_init 0 initial) = []"
    by (simp add: eval_rules sample_engine_def x3_desc_def ttbr0_desc_def bl_insn_def)
  from direct_branch_emitted_at_once [OF h1 h2 h3 h4']
  obtain s' where "vcpu_insn_exec_cb sample_engine 0 (insn_output bl_insn) (vcpu_init 0 initial) = Inr s'"
    "outs s' = [''0, 0x400500, 0x94000058, bl #0x4005c0\<newline>'']"
    "insn_rec (cpus s' ! 0) = ''0, 0x400500, 0x94000058, bl #0x4005c0\<newline>''"
    "outs (plugin_exit s') ! (length (outs s') + 0) = ''0, 0x400500, 0x94000058, bl #0x4005c0\<newline>\<newline>''"
    unfolding r rp o by auto
  then show ?thesis using h1 h2 h3 h4 by auto
qed

text \<open>
  Claim C3 as the specification states it fails: a \<^verbatim>\<open>bl\<close> followed by shutdown is
  emitted twice, once by the callback and once more by \<^verbatim>\<open>plugin_exit\<close>.
\<close>

theorem bl_record_emitted_again_at_exit:
  "map_sum id outs
     (run [Vcpu_init 0, Insn_exec sample_engine 0 (insn_output bl_insn), Plugin_exit] initial)
   = Inr [''0, 0x400500, 0x94000058, bl #0x4005c0\<newline>'',
          ''0, 0x400500, 0x94000058, bl #0x4005c0\<newline>\<newline>'']"
  by (simp add: eval_rules sample_engine_def x3_desc_def ttbr0_desc_def bl_insn_def)




section \<open>Shutdown\<close>

text \<open>
  Claim C5 holds for a core whose record is not empty, and the code breaks it for a core
  whose record is empty: the test of \<^verbatim>\<open>plugin_exit\<close> is on the \<^verbatim>\<open>str\<close> pointer, which
  is never NULL, where \<^verbatim>\<open>vcpu_insn_exec_cb\<close> tests \<^verbatim>\<open>len\<close>. So the handler appends a
  newline to the record of every core and emits it; for a core that came online and
  executed no instrumented instruction it emits a line of its own.
\<close>

theorem plugin_exit_emits_for_every_core:
  "outs (plugin_exit s) = outs s @ map (\<lambda>c. insn_rec c @ ''\<newline>'') (cpus s)
   \<and> map insn_rec (cpus (vcpu_init 0 initial)) = [[]]
   \<and> outs (plugin_exit (vcpu_init 0 initial)) = [''\<newline>'']"
  by (simp add: outs_plugin_exit eval_rules)

section \<open>The Register Value Renderer\<close>

text \<open>
  Claim C6, as amended. \<^verbatim>\<open>read_register\<close> appends \<^verbatim>\<open>", <name> -> 0x"\<close>, then two
  lower-case hexadecimal digits for every byte that the register read returned, from the
  last byte of the buffer to the first, then a newline. No byte is left out, so the
  digits are twice as many as the bytes; read as one hexadecimal number they are the value
  of the buffer taken least significant byte first, which is to say that the most
  significant byte of a little-endian register comes first. Leading zero bytes are
  printed like the others.
\<close>

theorem read_register_all_bytes:
  assumes "qemu_plugin_read_register e i (handle d) = Some bs"
  shows "read_register e i d rec
           = rec @ '', '' @ name d @ '' -> 0x'' @ concat (map hex2 (rev bs)) @ ''\<newline>''
         \<and> length (concat (map hex2 (rev bs))) = 2 * length bs
         \<and> hex_value (concat (map hex2 (rev bs))) = le_value bs"
  using assms by (simp add: read_register_Some length_rendered hex_value_rendered)

text \<open>
  The register \<^verbatim>\<open>x3\<close> holding 0x4005c0 in eight bytes: the segment is
  \<^verbatim>\<open>", x3 -> 0x00000000004005c0"\<close> and a newline.
\<close>

theorem read_register_all_bytes_witness:
  "qemu_plugin_read_register sample_engine 0 (handle x3_desc)
     = Some [0xc0, 0x05, 0x40, 0, 0, 0, 0, 0]
   \<and> read_register sample_engine 0 x3_desc [] = '', x3 -> 0x00000000004005c0\<newline>''
   \<and> hex_value ''00000000004005c0'' = le_value [0xc0, 0x05, 0x40, 0, 0, 0, 0, 0]"
proof -
  have h: "qemu_plugin_read_register sample_engine 0 (handle x3_desc)
             = Some [0xc0, 0x05, 0x40, 0, 0, 0, 0, 0]"
    by (simp add: sample_engine_def x3_desc_def)
  have r: "concat (map hex2 (rev [0xc0, 0x05, 0x40, 0, 0, 0, 0, 0])) = ''00000000004005c0''"
    by (simp add: hex2_def hex_digit_def)
  from read_register_all_bytes [OF h, of "[]"] show ?thesis
    unfolding r using h by (simp add: x3_desc_def)
qed

text \<open>
  Claim C6 as the specification states it fails: for the bytes 00 00 00 00 00 40 05 c0
  (most significant first) of \<^verbatim>\<open>x3\<close> the segment is not \<^verbatim>\<open>", x3 -> 0x40005c0"\<close>, with
  or without the newline, and it is not that either when the buffer holds the bytes in
  the order listed.
\<close>

theorem read_register_trims_nothing:
  "read_register sample_engine 0 x3_desc [] = '', x3 -> 0x00000000004005c0\<newline>''
   \<and> read_register sample_engine 0 x3_desc [] \<noteq> '', x3 -> 0x40005c0\<newline>''
   \<and> read_register sample_engine 0 x3_desc [] \<noteq> '', x3 -> 0x40005c0''
   \<and> read_register swapped_engine 0 x3_desc [] = '', x3 -> 0xc005400000000000\<newline>''"
  by (simp add: read_register_def sample_engine_def swapped_engine_def x3_desc_def
      hex2_def hex_digit_def)

section \<open>The Static Translation Scanner\<close>

text \<open>
  Claim C7. For every instruction of a translation block, \<^verbatim>\<open>vcpu_tb_trans\<close> registers
  an execution callback for it if and only if its disassembly starts with \<^verbatim>\<open>bl\<close> or
  with \<^verbatim>\<open>msr ttbr0\<close>. Every registration is for an instruction of the block, declares
  read access to the registers, and carries the address, the 32-bit encoding and the
  disassembly of that instruction; no instruction is registered twice.
\<close>

theorem scanner_registers_interesting_only:
  "(\<forall>j < length tb.
      (\<exists>flags udata. (j, flags, udata) \<in> set (vcpu_tb_trans tb))
        = (g_str_has_prefix (insn_disas (tb ! j)) ''bl''
           \<or> g_str_has_prefix (insn_disas (tb ! j)) ''msr ttbr0''))
   \<and> (\<forall>j flags udata. (j, flags, udata) \<in> set (vcpu_tb_trans tb) \<longrightarrow>
          j < length tb \<and> flags = QEMU_PLUGIN_CB_R_REGS
          \<and> udata = ''0x'' @ hex_nat (unat (insn_vaddr (tb ! j))) @ '', 0x''
                      @ hex_nat (unat (insn_data (tb ! j))) @ '', '' @ insn_disas (tb ! j))
   \<and> distinct (map fst (vcpu_tb_trans tb))"
proof -
  let ?want = "\<lambda>j. g_str_has_prefix (insn_disas (tb ! j)) ''bl''
                    \<or> g_str_has_prefix (insn_disas (tb ! j)) ''msr ttbr0''"
  have a: "\<forall>j < length tb.
      (\<exists>flags udata. (j, flags, udata) \<in> set (vcpu_tb_trans tb)) = ?want j"
    by (auto simp add: vcpu_tb_trans_eq)
  have b: "\<forall>j flags udata. (j, flags, udata) \<in> set (vcpu_tb_trans tb) \<longrightarrow>
          j < length tb \<and> flags = QEMU_PLUGIN_CB_R_REGS
          \<and> udata = ''0x'' @ hex_nat (unat (insn_vaddr (tb ! j))) @ '', 0x''
                      @ hex_nat (unat (insn_data (tb ! j))) @ '', '' @ insn_disas (tb ! j)"
    by (auto simp add: vcpu_tb_trans_eq insn_output_def)
  have "map fst (vcpu_tb_trans tb) = filter ?want [0..<length tb]"
    by (simp add: vcpu_tb_trans_eq comp_def)
  then have c: "distinct (map fst (vcpu_tb_trans tb))" by simp
  from a b c show ?thesis by (intro conjI)
qed

text \<open>A block of three instructions, the second one an \<^verbatim>\<open>add\<close>.\<close>

theorem scanner_registers_interesting_only_witness:
  "vcpu_tb_trans [bl_insn, add_insn, msr_insn]
     = [(0, QEMU_PLUGIN_CB_R_REGS, ''0x400500, 0x94000058, bl #0x4005c0''),
        (2, QEMU_PLUGIN_CB_R_REGS, ''0x400508, 0xd5182000, msr ttbr0_el1, x0'')]
   \<and> g_str_has_prefix (insn_disas ([bl_insn, add_insn, msr_insn] ! 0)) ''bl''
   \<and> (\<exists>flags udata. (0, flags, udata) \<in> set (vcpu_tb_trans [bl_insn, add_insn, msr_insn]))
   \<and> \<not> g_str_has_prefix (insn_disas ([bl_insn, add_insn, msr_insn] ! 1)) ''bl''
   \<and> \<not> g_str_has_prefix (insn_disas ([bl_insn, add_insn, msr_insn] ! 1)) ''msr ttbr0''
   \<and> \<not> (\<exists>flags udata. (1, flags, udata) \<in> set (vcpu_tb_trans [bl_insn, add_insn, msr_insn]))"
proof -
  let ?tb = "[bl_insn, add_insn, msr_insn]"
  have v: "vcpu_tb_trans ?tb
     = [(0, QEMU_PLUGIN_CB_R_REGS, ''0x400500, 0x94000058, bl #0x4005c0''),
        (2, QEMU_PLUGIN_CB_R_REGS, ''0x400508, 0xd5182000, msr ttbr0_el1, x0'')]"
    by (simp add: vcpu_tb_trans_def g_str_has_prefix_def eval_rules bl_insn_def msr_insn_def
        add_insn_def)
  have p0: "g_str_has_prefix (insn_disas (?tb ! 0)) ''bl''"
    by (simp add: g_str_has_prefix_def bl_insn_def)
  have p1: "\<not> g_str_has_prefix (insn_disas (?tb ! 1)) ''bl''"
    "\<not> g_str_has_prefix (insn_disas (?tb ! 1)) ''msr ttbr0''"
    by (simp_all add: g_str_has_prefix_def add_insn_def)
  have l0: "0 < length ?tb" and l1: "1 < length ?tb" by simp_all
  from scanner_registers_interesting_only [of ?tb]
  have iff: "\<And>j. j < length ?tb \<Longrightarrow>
      (\<exists>flags udata. (j, flags, udata) \<in> set (vcpu_tb_trans ?tb))
        = (g_str_has_prefix (insn_disas (?tb ! j)) ''bl''
           \<or> g_str_has_prefix (insn_disas (?tb ! j)) ''msr ttbr0'')"
    by blast
  from iff [OF l0] p0 have r0: "\<exists>flags udata. (0, flags, udata) \<in> set (vcpu_tb_trans ?tb)"
    by blast
  from iff [OF l1] p1 have r1: "\<not> (\<exists>flags udata. (1, flags, udata) \<in> set (vcpu_tb_trans ?tb))"
    by blast
  from v p0 r0 p1 r1 show ?thesis by blast
qed

section \<open>Installation\<close>

text \<open>
  Claim C8. \<^verbatim>\<open>qemu_plugin_install\<close> returns \<open>-1\<close> if and only if some option has a
  key other than \<^verbatim>\<open>binary\<close> or is a \<^verbatim>\<open>binary\<close> option whose value the boolean parser
  rejects, and then it has registered no callback. Otherwise it returns \<open>0\<close>, has
  registered its three callbacks and has printed one diagnostic for each option. In both
  cases the registry and the output are untouched. The parsed value only goes to
  \<^verbatim>\<open>fmt_bin\<close>, which no handler reads: a run from a state with another value of
  \<^verbatim>\<open>fmt_bin\<close> is the same run, with that value carried along.
\<close>

theorem install_fails_on_bad_option:
  "(fst (qemu_plugin_install bp info argv s) = - 1) =
     (\<exists>opt \<in> set argv. strv_nth (g_strsplit_eq_2 opt) 0 \<noteq> Some ''binary''
        \<or> bp ''binary'' (strv_nth (g_strsplit_eq_2 opt) 1) = None)
   \<and> (fst (qemu_plugin_install bp info argv s) = - 1 \<longrightarrow>
        registered (snd (qemu_plugin_install bp info argv s)) = registered s)
   \<and> (fst (qemu_plugin_install bp info argv s) \<noteq> - 1 \<longrightarrow>
        fst (qemu_plugin_install bp info argv s) = 0
        \<and> registered (snd (qemu_plugin_install bp info argv s))
            = registered s @ [Vcpu_init_cb, Vcpu_tb_trans_cb, Atexit_cb]
        \<and> errs (snd (qemu_plugin_install bp info argv s))
            = errs s @ replicate (length argv) ''binary format option not yet supported\<newline>'')
   \<and> cpus (snd (qemu_plugin_install bp info argv s)) = cpus s
   \<and> outs (snd (qemu_plugin_install bp info argv s)) = outs s
   \<and> run evs (t\<lparr>fmt_bin := b\<rparr>) = map_sum id (\<lambda>t'. t'\<lparr>fmt_bin := b\<rparr>) (run evs t)"
proof -
  obtain ok s' where io: "install_options bp argv s = (ok, s')" by (cases "install_options bp argv s")
  have ok: "ok = (\<forall>opt \<in> set argv. strv_nth (g_strsplit_eq_2 opt) 0 = Some ''binary''
        \<and> bp ''binary'' (strv_nth (g_strsplit_eq_2 opt) 1) \<noteq> None)"
    using install_options_fst [of bp argv s] io by simp
  have fr: "registered s' = registered s" "cpus s' = cpus s" "outs s' = outs s"
    using install_options_frame [of bp argv s] io by simp_all
  have er: "ok \<Longrightarrow> errs s' = errs s @ replicate (length argv) ''binary format option not yet supported\<newline>''"
    using install_options_errs [of bp argv s] io by simp
  show ?thesis
  proof (cases ok)
    case True
    then have "qemu_plugin_install bp info argv s
        = (0, s'\<lparr>registered := registered s' @ [Vcpu_init_cb, Vcpu_tb_trans_cb, Atexit_cb]\<rparr>)"
      using io by (simp add: qemu_plugin_install_def)
    then show ?thesis using True ok fr er by (simp add: run_fmt_bin)
  next
    case False
    then have "qemu_plugin_install bp info argv s = (- 1, s')"
      using io by (simp add: qemu_plugin_install_def)
    then show ?thesis using False ok fr by (simp add: run_fmt_bin)
  qed
qed

text \<open>A well-formed option, a value that is no boolean, and an unknown key.\<close>

theorem install_fails_on_bad_option_witness:
  "fst (qemu_plugin_install sample_bool_parse sample_info [''binary=true''] initial) = 0
   \<and> registered (snd (qemu_plugin_install sample_bool_parse sample_info [''binary=true''] initial))
       = [Vcpu_init_cb, Vcpu_tb_trans_cb, Atexit_cb]
   \<and> errs (snd (qemu_plugin_install sample_bool_parse sample_info [''binary=true''] initial))
       = [''binary format option not yet supported\<newline>'']
   \<and> sample_bool_parse ''binary'' (strv_nth (g_strsplit_eq_2 ''binary=maybe'') 1) = None
   \<and> fst (qemu_plugin_install sample_bool_parse sample_info [''binary=true'', ''binary=maybe''] initial) = - 1
   \<and> registered (snd (qemu_plugin_install sample_bool_parse sample_info
         [''binary=true'', ''binary=maybe''] initial)) = []
   \<and> strv_nth (g_strsplit_eq_2 ''verbose=on'') 0 \<noteq> Some ''binary''
   \<and> fst (qemu_plugin_install sample_bool_parse sample_info [''verbose=on''] initial) = - 1
   \<and> registered (snd (qemu_plugin_install sample_bool_parse sample_info [''verbose=on''] initial)) = []"
proof -
  have g: "strv_nth (g_strsplit_eq_2 ''binary=true'') 0 = Some ''binary''"
    "sample_bool_parse ''binary'' (strv_nth (g_strsplit_eq_2 ''binary=true'') 1) = Some True"
    by (simp_all add: tokens_binary_true strv_nth_def sample_bool_parse_def)
  have m: "strv_nth (g_strsplit_eq_2 ''binary=maybe'') 0 = Some ''binary''"
    "sample_bool_parse ''binary'' (strv_nth (g_strsplit_eq_2 ''binary=maybe'') 1) = None"
    by (simp_all add: tokens_binary_maybe strv_nth_def sample_bool_parse_def)
  have v: "strv_nth (g_strsplit_eq_2 ''verbose=on'') 0 \<noteq> Some ''binary''"
    by (simp add: tokens_verbose strv_nth_def)
  have r: "registered initial = []" "errs initial = []" by (simp_all add: initial_def)
  from install_fails_on_bad_option [of sample_bool_parse sample_info "[''binary=true'']" initial]
  have a: "fst (qemu_plugin_install sample_bool_parse sample_info [''binary=true''] initial) = 0
   \<and> registered (snd (qemu_plugin_install sample_bool_parse sample_info [''binary=true''] initial))
       = [Vcpu_init_cb, Vcpu_tb_trans_cb, Atexit_cb]
   \<and> errs (snd (qemu_plugin_install sample_bool_parse sample_info [''binary=true''] initial))
       = [''binary format option not yet supported\<newline>'']"
    using g r by simp
  from install_fails_on_bad_option [of sample_bool_parse sample_info "[''binary=true'', ''binary=maybe'']" initial]
  have b: "fst (qemu_plugin_install sample_bool_parse sample_info [''binary=true'', ''binary=maybe''] initial) = - 1
   \<and> registered (snd (qemu_plugin_install sample_bool_parse sample_info
         [''binary=true'', ''binary=maybe''] initial)) = []"
    using g m r by simp
  from install_fails_on_bad_option [of sample_bool_parse sample_info "[''verbose=on'']" initial]
  have c: "fst (qemu_plugin_install sample_bool_parse sample_info [''verbose=on''] initial) = - 1
   \<and> registered (snd (qemu_plugin_install sample_bool_parse sample_info [''verbose=on''] initial)) = []"
    using v r by simp
  from a b c m(2) v show ?thesis by blast
qed

section \<open>The Core Registry\<close>

text \<open>
  Claim C10. A core-online event for an index \<open>i\<close> at or beyond the size of the
  registry appends the slots from the old size up to \<open>i\<close>, and every one of them gets
  the identity tag \<open>i\<close>. So after any sequence of core-online events on the initial
  state, every slot \<open>k\<close> has the tag \<open>k\<close> exactly when the events that made the
  registry grow were \<open>0, 1, 2, \<dots>\<close> in this order, each index in its turn. The
  callback lists the registers of the core named by the stored tag: two engines that
  agree on the registers of that core (and on register reads) give the same result,
  whatever they list for the core index the callback was called with.
\<close>

theorem grown_slots_share_the_tag:
  "(length (cpus s) \<le> i \<longrightarrow>
      cpus (vcpu_init i s)
        = cpus s @ replicate (Suc i - length (cpus s)) \<lparr>insn_rec = [], index = i\<rparr>
      \<and> (\<forall>k. length (cpus s) \<le> k \<and> k \<le> i \<longrightarrow> index (cpus (vcpu_init i s) ! k) = i))
   \<and> (\<exists>s'. run (map Vcpu_init ids) initial = Inr s'
          \<and> ((\<forall>k < length (cpus s'). index (cpus s' ! k) = k)
               = (growing 0 ids = [0..<length (cpus s')])))
   \<and> (qemu_plugin_get_registers e (index c) = qemu_plugin_get_registers e' (index c)
        \<and> qemu_plugin_read_register e = qemu_plugin_read_register e'
        \<longrightarrow> vcpu_insn_exec_cb_cpu e j u c = vcpu_insn_exec_cb_cpu e' j u c)"
proof -
  have a: "length (cpus s) \<le> i \<longrightarrow>
      cpus (vcpu_init i s)
        = cpus s @ replicate (Suc i - length (cpus s)) \<lparr>insn_rec = [], index = i\<rparr>
      \<and> (\<forall>k. length (cpus s) \<le> k \<and> k \<le> i \<longrightarrow> index (cpus (vcpu_init i s) ! k) = i)"
    by (auto simp add: cpus_vcpu_init nth_append)
  have "cpus initial = []" by (simp add: initial_def)
  then have "(\<forall>k < length (cpus (fold vcpu_init ids initial)).
                 index (cpus (fold vcpu_init ids initial) ! k) = k)
               = (growing 0 ids = [0..<length (cpus (fold vcpu_init ids initial))])"
    using tags_growing [of initial ids] by simp
  then have b: "\<exists>s'. run (map Vcpu_init ids) initial = Inr s'
          \<and> ((\<forall>k < length (cpus s'). index (cpus s' ! k) = k)
               = (growing 0 ids = [0..<length (cpus s')]))"
    by (simp add: run_vcpu_inits)
  have c: "qemu_plugin_get_registers e (index c) = qemu_plugin_get_registers e' (index c)
        \<and> qemu_plugin_read_register e = qemu_plugin_read_register e'
        \<longrightarrow> vcpu_insn_exec_cb_cpu e j u c = vcpu_insn_exec_cb_cpu e' j u c"
    using callback_uses_stored_tag by blast
  from a b c show ?thesis by (intro conjI)
qed

text \<open>
  Core 1 comes online first: both slots get the tag 1, and a \<^verbatim>\<open>blr x3\<close> on core 0
  looks for \<^verbatim>\<open>x3\<close> among the registers of core 1, where this engine has none.
\<close>

theorem grown_slots_share_the_tag_witness:
  "length (cpus initial) \<le> 1
   \<and> cpus (vcpu_init 1 initial)
       = [\<lparr>insn_rec = [], index = 1\<rparr>, \<lparr>insn_rec = [], index = 1\<rparr>]
   \<and> index (cpus (vcpu_init 1 initial) ! 0) = 1
   \<and> run (map Vcpu_init [1]) initial = Inr (vcpu_init 1 initial)
   \<and> growing 0 [1] \<noteq> [0..<length (cpus (vcpu_init 1 initial))]
   \<and> \<not> (\<forall>k < length (cpus (vcpu_init 1 initial)). index (cpus (vcpu_init 1 initial) ! k) = k)
   \<and> get_reg_desc (qemu_plugin_get_registers split_engine 0) ''x3'' = Some x3_desc
   \<and> qemu_plugin_get_registers split_engine (index (cpus (vcpu_init 1 initial) ! 0))
       = qemu_plugin_get_registers empty_engine (index (cpus (vcpu_init 1 initial) ! 0))
   \<and> qemu_plugin_read_register split_engine = qemu_plugin_read_register empty_engine
   \<and> vcpu_insn_exec_cb_cpu split_engine 0 (insn_output blr_insn) (cpus (vcpu_init 1 initial) ! 0)
       = Inr (\<lparr>insn_rec = ''0, 0x400504, 0xd63f0060, blr x3'', index = 1\<rparr>, [],
              [''Failed to find register x3 on cpu 1.\<newline>''])"
proof -
  note T = grown_slots_share_the_tag [where s = initial and i = 1 and ids = "[1]"
      and e = split_engine and e' = empty_engine and c = "cpus (vcpu_init 1 initial) ! 0"
      and j = 0 and u = "insn_output blr_insn"]
  have l: "length (cpus initial) \<le> 1" by (simp add: initial_def)
  have cs: "cpus (vcpu_init 1 initial)
       = [\<lparr>insn_rec = [], index = 1\<rparr>, \<lparr>insn_rec = [], index = 1\<rparr>]"
    using T l by (simp add: initial_def numeral_2_eq_2)
  from T l have "\<forall>k. length (cpus initial) \<le> k \<and> k \<le> 1 \<longrightarrow> index (cpus (vcpu_init 1 initial) ! k) = 1"
    by blast
  then have tag: "index (cpus (vcpu_init 1 initial) ! 0) = 1" by (simp add: initial_def)
  have r: "run (map Vcpu_init [1]) initial = Inr (vcpu_init 1 initial)" by simp
  have g: "growing 0 [1] \<noteq> [0..<length (cpus (vcpu_init 1 initial))]"
    unfolding cs by (simp add: upt_rec)
  from T r have "(\<forall>k < length (cpus (vcpu_init 1 initial)). index (cpus (vcpu_init 1 initial) ! k) = k)
      = (growing 0 [1] = [0..<length (cpus (vcpu_init 1 initial))])"
    by auto
  with g have bad: "\<not> (\<forall>k < length (cpus (vcpu_init 1 initial)).
      index (cpus (vcpu_init 1 initial) ! k) = k)" by simp
  have x: "get_reg_desc (qemu_plugin_get_registers split_engine 0) ''x3'' = Some x3_desc"
    by (simp add: split_engine_def x3_desc_def)
  have same: "qemu_plugin_get_registers split_engine (index (cpus (vcpu_init 1 initial) ! 0))
       = qemu_plugin_get_registers empty_engine (index (cpus (vcpu_init 1 initial) ! 0))"
    unfolding tag by (simp add: split_engine_def empty_engine_def)
  have rd: "qemu_plugin_read_register split_engine = qemu_plugin_read_register empty_engine"
    by (simp add: split_engine_def empty_engine_def)
  from T same rd have "vcpu_insn_exec_cb_cpu split_engine 0 (insn_output blr_insn)
      (cpus (vcpu_init 1 initial) ! 0)
    = vcpu_insn_exec_cb_cpu empty_engine 0 (insn_output blr_insn) (cpus (vcpu_init 1 initial) ! 0)"
    by blast
  also have "\<dots> = Inr (\<lparr>insn_rec = ''0, 0x400504, 0xd63f0060, blr x3'', index = 1\<rparr>, [],
              [''Failed to find register x3 on cpu 1.\<newline>''])"
    unfolding cs
      by (simp add: eval_rules empty_engine_def split_engine_def x3_desc_def ttbr0_desc_def
          blr_insn_def)
  finally have cb: "vcpu_insn_exec_cb_cpu split_engine 0 (insn_output blr_insn)
      (cpus (vcpu_init 1 initial) ! 0)
    = Inr (\<lparr>insn_rec = ''0, 0x400504, 0xd63f0060, blr x3'', index = 1\<rparr>, [],
              [''Failed to find register x3 on cpu 1.\<newline>''])" .
  from l cs tag r g bad x same rd cb show ?thesis by (intro conjI)
qed

end
